theory Spec2Isabelle
  imports Main "HOL-Library.Sublist"
begin

section \<open>CampusTrace: the data model (types.ts)\<close>

text \<open>
  The enums of \<^verbatim>\<open>types.ts\<close> are datatypes, its interfaces are records. Isabelle's record
  fields are global names, so the fields that several interfaces share carry a prefix:
  \<^verbatim>\<open>User.id\<close> is \<open>u_id\<close>, \<^verbatim>\<open>ClaimRequest.id/userId/status\<close> are \<open>c_id\<close>, \<open>c_userId\<close>,
  \<open>c_status\<close>, and \<^verbatim>\<open>Item.id/type\<close> are \<open>item_id\<close>, \<open>item_type\<close>. Strings are \<open>string\<close>.
\<close>

datatype ItemType = LOST | FOUND

datatype ItemStatus = PENDING_APPROVAL | UNCLAIMED | CLAIM_REQUESTED | RETURNED

datatype Category = ELECTRONICS | BOOKS | CLOTHING | KEYS | CARDS | OTHER

datatype Role = STUDENT | ADMIN

datatype ClaimStatus = PENDING | APPROVED | REJECTED

record User =
  u_id :: string
  email :: string
  role :: Role

record ClaimRequest =
  c_id :: string
  c_userId :: string
  userEmail :: string
  message :: string
  contact :: string
  c_status :: ClaimStatus

record Item =
  item_id :: string
  title :: string
  item_type :: ItemType
  category :: Category
  location :: string
  date :: string
  description :: string
  imageUrl :: "string option"
  status :: ItemStatus
  userId :: string
  claims :: "ClaimRequest list"
  createdAt :: string

text \<open>The string value of each member of \<^verbatim>\<open>enum Category\<close>.\<close>

fun category_name :: "Category \<Rightarrow> string" where
  "category_name ELECTRONICS = ''Electronics''"
| "category_name BOOKS = ''Books & Stationery''"
| "category_name CLOTHING = ''Clothing & Accessories''"
| "category_name KEYS = ''Keys''"
| "category_name CARDS = ''Cards & IDs''"
| "category_name OTHER = ''Other''"

text \<open>\<^verbatim>\<open>Object.values(Category)\<close>, in declaration order.\<close>

definition Category_values :: "string list" where
  "Category_values = map category_name [ELECTRONICS, BOOKS, CLOTHING, KEYS, CARDS, OTHER]"

section \<open>The component state of App.tsx\<close>

text \<open>
  \<^verbatim>\<open>App\<close> holds its state in \<^verbatim>\<open>useState\<close> cells. The cells that the handlers and the
  derived lists below read or write are the fields of \<open>AppState\<close>. The notification list,
  the camera flag and the AI-loading flag are presentation state that no handler result
  below depends on; they are left out.
\<close>

datatype Tab = HOME | POST | MY_TRACE | ADMIN_TAB

text \<open>\<^verbatim>\<open>activeCategory: Category | 'ALL'\<close>; the sentinel \<^verbatim>\<open>'ALL'\<close> is \<open>ALL_ITEMS\<close>.\<close>

datatype CategoryFilter = ALL_ITEMS | Cat Category

text \<open>
  \<^verbatim>\<open>newItem: Partial<Item>\<close>: every \<^verbatim>\<open>setNewItem\<close> call of the component gives it exactly
  these seven fields. The category of the draft is a member of the enumeration here; what
  \<^verbatim>\<open>handleAiCategorize\<close> may store there is the subject of \<open>suggestCategory\<close> below.
\<close>

record NewItem =
  n_title :: string
  n_type :: ItemType
  n_category :: Category
  n_location :: string
  n_date :: string
  n_description :: string
  n_imageUrl :: "string option"

record ClaimForm =
  f_message :: string
  f_contact :: string

record AppState =
  items :: "Item list"
  currentUser :: "User option"
  activeTab :: Tab
  selectedItem :: "Item option"
  searchQuery :: string
  activeCategory :: CategoryFilter
  newItem :: NewItem
  claimForm :: ClaimForm

section \<open>String helpers of the JavaScript runtime\<close>

text \<open>
  \<^verbatim>\<open>String.prototype.toLowerCase\<close>, \<^verbatim>\<open>includes\<close> (here \<open>includes_str\<close>, the plain
  name being an Isabelle keyword) and \<^verbatim>\<open>trim\<close> on \<open>string\<close>. A \<open>char\<close> is
  one code point below 256; lower-casing maps \<^verbatim>\<open>A-Z\<close> and the Latin-1 capitals
  (192 to 222 without 215) to the letter 32 above, and the white space that \<^verbatim>\<open>trim\<close> removes
  is 9 to 13, 32 and 160.
\<close>

definition lower_char :: "char \<Rightarrow> char" where
  "lower_char c =
     (let n = (of_char c :: nat)
      in if (65 \<le> n \<and> n \<le> 90) \<or> (192 \<le> n \<and> n \<le> 222 \<and> n \<noteq> 215)
         then char_of (n + 32) else c)"

definition toLowerCase :: "string \<Rightarrow> string" where
  "toLowerCase s = map lower_char s"

fun includes_str :: "string \<Rightarrow> string \<Rightarrow> bool" where
  "includes_str [] q = (q = [])"
| "includes_str (c # s) q = (prefix q (c # s) \<or> includes_str s q)"

definition is_space :: "char \<Rightarrow> bool" where
  "is_space c = (let n = (of_char c :: nat) in (9 \<le> n \<and> n \<le> 13) \<or> n = 32 \<or> n = 160)"

definition trim :: "string \<Rightarrow> string" where
  "trim s = rev (dropWhile is_space (rev (dropWhile is_space s)))"

section \<open>The derived lists (useMemo)\<close>

text \<open>
  \<^verbatim>\<open>it.userId === currentUser?.id\<close> and \<^verbatim>\<open>currentUser?.role === 'ADMIN'\<close>: with no user the
  left sides are \<^verbatim>\<open>undefined\<close>, which equals neither a string id nor \<^verbatim>\<open>'ADMIN'\<close>.
\<close>

definition owns :: "User option \<Rightarrow> Item \<Rightarrow> bool" where
  "owns cu it = (case cu of None \<Rightarrow> False | Some u \<Rightarrow> userId it = u_id u)"

definition is_admin :: "User option \<Rightarrow> bool" where
  "is_admin cu = (case cu of None \<Rightarrow> False | Some u \<Rightarrow> role u = ADMIN)"

definition matchSearch :: "string \<Rightarrow> Item \<Rightarrow> bool" where
  "matchSearch q it =
     (includes_str (toLowerCase (title it)) (toLowerCase q) \<or>
      includes_str (toLowerCase (description it)) (toLowerCase q))"

definition matchCategory :: "CategoryFilter \<Rightarrow> Item \<Rightarrow> bool" where
  "matchCategory ac it = (ac = ALL_ITEMS \<or> Cat (category it) = ac)"

definition isVisible :: "User option \<Rightarrow> Item \<Rightarrow> bool" where
  "isVisible cu it = (status it \<noteq> PENDING_APPROVAL \<or> owns cu it \<or> is_admin cu)"

definition filteredItems :: "AppState \<Rightarrow> Item list" where
  "filteredItems st =
     filter (\<lambda>it. matchSearch (searchQuery st) it \<and>
                  matchCategory (activeCategory st) it \<and>
                  isVisible (currentUser st) it)
            (items st)"

definition myItems :: "AppState \<Rightarrow> Item list" where
  "myItems st = filter (\<lambda>it. owns (currentUser st) it) (items st)"

definition myClaims :: "AppState \<Rightarrow> Item list" where
  "myClaims st =
     filter (\<lambda>it. list_ex (\<lambda>c. case currentUser st of None \<Rightarrow> False
                                 | Some u \<Rightarrow> c_userId c = u_id u) (claims it))
            (items st)"

section \<open>The handlers of App.tsx\<close>

text \<open>
  Each handler reads the state cells of the current render and writes some of them; here it
  takes the state and returns the new one. \<^verbatim>\<open>Math.random().toString(36).substr(2, 9)\<close> and
  \<^verbatim>\<open>new Date().toISOString()\<close> are inputs of the handler that calls them: \<open>rid\<close> is the
  random id, \<open>now\<close> and \<open>now2\<close> are the two time stamps that \<^verbatim>\<open>handlePost\<close> reads.
\<close>

text \<open>\<^verbatim>\<open>s.split('T')[0]\<close>: the part of \<open>s\<close> before the first \<^verbatim>\<open>T\<close>.\<close>

definition split_T_0 :: "string \<Rightarrow> string" where
  "split_T_0 s = takeWhile (\<lambda>c. c \<noteq> CHR ''T'') s"

text \<open>The draft that \<^verbatim>\<open>handlePost\<close> puts back into the form.\<close>

definition blank_newItem :: "string \<Rightarrow> NewItem" where
  "blank_newItem now2 =
     \<lparr>n_title = [], n_type = LOST, n_category = OTHER, n_location = [],
      n_date = split_T_0 now2, n_description = [], n_imageUrl = Some []\<rparr>"

text \<open>
  \<^verbatim>\<open>{ ...(newItem as Item), id, userId, status, claims, createdAt }\<close>: the seven draft fields,
  then the five fields that the handler sets.
\<close>

definition new_item :: "NewItem \<Rightarrow> string \<Rightarrow> string \<Rightarrow> string \<Rightarrow> Item" where
  "new_item d rid uid now =
     \<lparr>item_id = rid, title = n_title d, item_type = n_type d, category = n_category d,
      location = n_location d, date = n_date d, description = n_description d,
      imageUrl = n_imageUrl d, status = PENDING_APPROVAL, userId = uid, claims = [],
      createdAt = now\<rparr>"

definition handlePost :: "string \<Rightarrow> string \<Rightarrow> string \<Rightarrow> AppState \<Rightarrow> AppState" where
  "handlePost rid now now2 st =
     (case currentUser st of
        None \<Rightarrow> st
      | Some u \<Rightarrow>
          st\<lparr>items := new_item (newItem st) rid (u_id u) now # items st,
             newItem := blank_newItem now2,
             activeTab := MY_TRACE\<rparr>)"

definition new_claim :: "string \<Rightarrow> User \<Rightarrow> ClaimForm \<Rightarrow> ClaimRequest" where
  "new_claim rid u f =
     \<lparr>c_id = rid, c_userId = u_id u, userEmail = email u, message = f_message f,
      contact = f_contact f, c_status = PENDING\<rparr>"

definition handleClaimSubmit :: "string \<Rightarrow> AppState \<Rightarrow> AppState" where
  "handleClaimSubmit rid st =
     (case selectedItem st of
        None \<Rightarrow> st
      | Some sel \<Rightarrow>
          (case currentUser st of
             None \<Rightarrow> st
           | Some u \<Rightarrow>
               st\<lparr>items := map (\<lambda>it. if item_id it = item_id sel
                                      then it\<lparr>status := CLAIM_REQUESTED,
                                              claims := claims it @ [new_claim rid u (claimForm st)]\<rparr>
                                      else it) (items st),
                  selectedItem := None,
                  claimForm := \<lparr>f_message = [], f_contact = []\<rparr>\<rparr>))"

datatype AdminAction = APPROVE | DELETE | MARK_RETURNED

text \<open>
  \<^verbatim>\<open>statusMap\<close> has the two keys \<^verbatim>\<open>'APPROVE'\<close> and \<^verbatim>\<open>'MARK_RETURNED'\<close>; the handler reads it
  only after it has excluded \<^verbatim>\<open>'DELETE'\<close>, so the \<open>None\<close> branch below is never taken.
\<close>

fun statusMap :: "AdminAction \<Rightarrow> ItemStatus option" where
  "statusMap APPROVE = Some UNCLAIMED"
| "statusMap MARK_RETURNED = Some RETURNED"
| "statusMap DELETE = None"

definition handleAdminAction :: "string \<Rightarrow> AdminAction \<Rightarrow> AppState \<Rightarrow> AppState" where
  "handleAdminAction i action st =
     (if action = DELETE
      then st\<lparr>items := filter (\<lambda>it. item_id it \<noteq> i) (items st)\<rparr>
      else (case statusMap action of
              None \<Rightarrow> st
            | Some s \<Rightarrow>
                st\<lparr>items := map (\<lambda>it. if item_id it = i then it\<lparr>status := s\<rparr> else it)
                                 (items st)\<rparr>))"

text \<open>\<^verbatim>\<open>onClick={() => setSelectedItem(item)}\<close>: the sheet keeps a copy of the item.\<close>

definition setSelectedItem :: "Item \<Rightarrow> AppState \<Rightarrow> AppState" where
  "setSelectedItem it st = st\<lparr>selectedItem := Some it\<rparr>"

section \<open>Render conditions\<close>

text \<open>
  The claim form, the only element whose \<^verbatim>\<open>onSubmit\<close> is \<^verbatim>\<open>handleClaimSubmit\<close>, is rendered
  when a user is logged in, an item is selected, and
  \<^verbatim>\<open>selectedItem.userId !== currentUser.id && selectedItem.status === ItemStatus.UNCLAIMED\<close>.
\<close>

definition claimFormVisible :: "AppState \<Rightarrow> bool" where
  "claimFormVisible st =
     (case currentUser st of
        None \<Rightarrow> False
      | Some u \<Rightarrow>
          (case selectedItem st of
             None \<Rightarrow> False
           | Some sel \<Rightarrow> userId sel \<noteq> u_id u \<and> status sel = UNCLAIMED))"

text \<open>
  The moderator tab renders one card, with its Approve and Reject buttons, for each element
  of \<^verbatim>\<open>items.filter(i => i.status === ItemStatus.PENDING_APPROVAL)\<close>.
\<close>

definition pendingReports :: "AppState \<Rightarrow> Item list" where
  "pendingReports st = filter (\<lambda>i. status i = PENDING_APPROVAL) (items st)"

section \<open>constants.ts\<close>

text \<open>\<^verbatim>\<open>INITIAL_ITEMS\<close>; \<open>t0\<close> is the time stamp read when the module is loaded.\<close>

definition INITIAL_ITEMS :: "string \<Rightarrow> Item list" where
  "INITIAL_ITEMS t0 =
     [\<lparr>item_id = ''1'', title = ''MacBook Air M2 Silver'', item_type = LOST,
       category = ELECTRONICS, location = ''Engineering Hall Lab 3'', date = ''2024-05-15'',
       description = ''Silver MacBook with a stickers of a rocket ship on the lid. Left it on the desk near the window.'',
       imageUrl = None, status = UNCLAIMED, userId = ''user-1'', claims = [],
       createdAt = t0\<rparr>,
      \<lparr>item_id = ''2'', title = ''Blue Water Bottle'', item_type = FOUND,
       category = OTHER, location = ''Campus Gym Cardio Zone'', date = ''2024-05-18'',
       description = ''Hydro Flask style, blue, has some scratches at the bottom.'',
       imageUrl = None, status = UNCLAIMED, userId = ''user-2'', claims = [],
       createdAt = t0\<rparr>,
      \<lparr>item_id = ''3'', title = ''Dorm Keys - Green Lanyard'', item_type = FOUND,
       category = KEYS, location = ''Main Library Level 2'', date = ''2024-05-19'',
       description = ''Found a set of 3 keys on a green university lanyard near the study pods.'',
       imageUrl = None, status = PENDING_APPROVAL, userId = ''user-3'', claims = [],
       createdAt = t0\<rparr>]"

text \<open>
  The state of a first visit (nothing in local storage): the initial values of the
  \<^verbatim>\<open>useState\<close> cells, with \<open>today\<close> the date part of the time stamp read for the draft.
\<close>

definition initial_state :: "string \<Rightarrow> string \<Rightarrow> AppState" where
  "initial_state t0 today =
     \<lparr>items = INITIAL_ITEMS t0, currentUser = None, activeTab = HOME, selectedItem = None,
      searchQuery = [], activeCategory = ALL_ITEMS,
      newItem = \<lparr>n_title = [], n_type = LOST, n_category = OTHER, n_location = [],
                 n_date = today, n_description = [], n_imageUrl = Some []\<rparr>,
      claimForm = \<lparr>f_message = [], f_contact = []\<rparr>\<rparr>"

text \<open>
  The two buttons of the login screen: \<^verbatim>\<open>loginEmail && setCurrentUser({ id: 'u-' + Date.now(),
  email: loginEmail, role: 'STUDENT' })\<close>, and the same with \<^verbatim>\<open>'a-'\<close> and \<^verbatim>\<open>'ADMIN'\<close>.
  \<open>ms\<close> is the decimal text of \<^verbatim>\<open>Date.now()\<close>.
\<close>

definition login :: "Role \<Rightarrow> string \<Rightarrow> string \<Rightarrow> AppState \<Rightarrow> AppState" where
  "login r loginEmail ms st =
     (if loginEmail = [] then st
      else st\<lparr>currentUser :=
                Some \<lparr>u_id = (case r of STUDENT \<Rightarrow> ''u-'' | ADMIN \<Rightarrow> ''a-'') @ ms,
                      email = loginEmail, role = r\<rparr>\<rparr>)"

section \<open>services/geminiService.ts\<close>

text \<open>
  The text service is outside the program: \<^verbatim>\<open>ai.models.generateContent\<close> is a parameter
  \<open>ai\<close> that maps a request either to \<open>Throws\<close> (the awaited call throws or rejects) or to
  a response, of which the functions read only \<^verbatim>\<open>response.text\<close>, a string or
  \<^verbatim>\<open>undefined\<close>. An \<^verbatim>\<open>async\<close> function ends in a promise that is rejected or resolved.
\<close>

datatype GenResult = Throws | Response "string option"

record GenRequest =
  model :: string
  contents :: string

datatype 'a promise = Rejected | Resolved 'a

text \<open>\<^verbatim>\<open>x || d\<close> for an optional string \<open>x\<close>: \<^verbatim>\<open>undefined\<close> and the empty string are falsy.\<close>

definition js_or :: "string option \<Rightarrow> string \<Rightarrow> string" where
  "js_or x d = (case x of None \<Rightarrow> d | Some s \<Rightarrow> if s = [] then d else s)"

definition dquote :: string where
  "dquote = [CHR 0x22]"

definition enhance_contents :: "string \<Rightarrow> string" where
  "enhance_contents text =
     ''Enhance this description for a campus lost and found item to be more clear and descriptive, while keeping it concise. Return ONLY the enhanced description. Original: ''
     @ dquote @ text @ dquote"

definition categorize_contents :: "string \<Rightarrow> string \<Rightarrow> string" where
  "categorize_contents ttl descr =
     ''Based on this item title: '' @ dquote @ ttl @ dquote @ '' and description: ''
     @ dquote @ descr @ dquote
     @ '', categorize it into one of these: Electronics, Books & Stationery, Clothing & Accessories, Keys, Cards & IDs, Other. Return ONLY the category name.''"

text \<open>In both functions the \<open>Throws\<close> branch is the \<^verbatim>\<open>catch\<close> block.\<close>

definition enhanceDescription :: "(GenRequest \<Rightarrow> GenResult) \<Rightarrow> string \<Rightarrow> string promise" where
  "enhanceDescription ai text =
     (case ai \<lparr>model = ''gemini-3-flash-preview'', contents = enhance_contents text\<rparr> of
        Throws \<Rightarrow> Resolved text
      | Response t \<Rightarrow> Resolved (js_or (map_option trim t) text))"

definition suggestCategory ::
  "(GenRequest \<Rightarrow> GenResult) \<Rightarrow> string \<Rightarrow> string \<Rightarrow> string promise" where
  "suggestCategory ai ttl descr =
     (case ai \<lparr>model = ''gemini-3-flash-preview'', contents = categorize_contents ttl descr\<rparr> of
        Throws \<Rightarrow> Resolved ''Other''
      | Response t \<Rightarrow> Resolved (js_or (map_option trim t) ''Other''))"

text \<open>
  The call has failed when it throws, when the response has no text, or when its text is
  empty after trimming.
\<close>

definition ai_failed :: "GenResult \<Rightarrow> bool" where
  "ai_failed r = (case r of Throws \<Rightarrow> True | Response None \<Rightarrow> True
                  | Response (Some t) \<Rightarrow> trim t = [])"

section \<open>The item route of the server\<close>

text \<open>
  \<^verbatim>\<open>createItem(data)\<close> of the service file posts \<^verbatim>\<open>JSON.stringify(data)\<close> to
  \<^verbatim>\<open>/api/items\<close>, and the route of the server file answers with the document made by
  \<^verbatim>\<open>Item.create(req.body)\<close>. A request body is a JSON object: the values it has at the
  eight paths that \<^verbatim>\<open>ItemSchema\<close> declares, and its other entries (name and JSON text).
  \<^verbatim>\<open>ItemSchema\<close> declares \<^verbatim>\<open>type\<close>, \<^verbatim>\<open>title\<close>, \<^verbatim>\<open>category\<close>, \<^verbatim>\<open>description\<close>, \<^verbatim>\<open>location\<close>
  and \<^verbatim>\<open>date\<close> as strings, \<^verbatim>\<open>status\<close> as a string with default \<^verbatim>\<open>"Unclaimed"\<close>, and
  \<^verbatim>\<open>createdAt\<close> with default \<^verbatim>\<open>Date.now\<close>; it declares no owner and no claims.
\<close>

record ItemBody =
  b_type :: "string option"
  b_title :: "string option"
  b_category :: "string option"
  b_description :: "string option"
  b_location :: "string option"
  b_date :: "string option"
  b_status :: "string option"
  b_createdAt :: "string option"
  b_other :: "(string \<times> string) list"

record ItemDoc =
  d_id :: string
  d_type :: "string option"
  d_title :: "string option"
  d_category :: "string option"
  d_description :: "string option"
  d_location :: "string option"
  d_date :: "string option"
  d_status :: string
  d_createdAt :: string

text \<open>
  Of the document library the route uses \<^verbatim>\<open>create\<close> only: the document has the declared
  paths that the body gives, the declared default where the body gives none, and a new
  \<^verbatim>\<open>_id\<close>; entries of the body that the schema does not declare are dropped; the promise
  is rejected when the store does not take the document. \<open>stored\<close> says whether the store
  takes it, \<open>oid\<close> is the new id and \<open>now\<close> the value of \<^verbatim>\<open>Date.now\<close>.
\<close>

definition Item_create :: "bool \<Rightarrow> string \<Rightarrow> string \<Rightarrow> ItemBody \<Rightarrow> ItemDoc promise" where
  "Item_create stored oid now b =
     (if stored
      then Resolved
             \<lparr>d_id = oid, d_type = b_type b, d_title = b_title b, d_category = b_category b,
              d_description = b_description b, d_location = b_location b, d_date = b_date b,
              d_status = (case b_status b of None \<Rightarrow> ''Unclaimed'' | Some s \<Rightarrow> s),
              d_createdAt = (case b_createdAt b of None \<Rightarrow> now | Some t \<Rightarrow> t)\<rparr>
      else Rejected)"

text \<open>
  \<^verbatim>\<open>app.post("/api/items", async (req, res) => { const item = await Item.create(req.body);
  res.json(item); })\<close>: the answer is the document.
\<close>

definition post_api_items :: "bool \<Rightarrow> string \<Rightarrow> string \<Rightarrow> ItemBody \<Rightarrow> ItemDoc promise" where
  "post_api_items stored oid now body = Item_create stored oid now body"

text \<open>The string values of \<^verbatim>\<open>enum ItemType\<close> and \<^verbatim>\<open>enum ItemStatus\<close>.\<close>

fun type_name :: "ItemType \<Rightarrow> string" where
  "type_name LOST = ''LOST''"
| "type_name FOUND = ''FOUND''"

fun status_name :: "ItemStatus \<Rightarrow> string" where
  "status_name PENDING_APPROVAL = ''PENDING_APPROVAL''"
| "status_name UNCLAIMED = ''UNCLAIMED''"
| "status_name CLAIM_REQUESTED = ''CLAIM_REQUESTED''"
| "status_name RETURNED = ''RETURNED''"

text \<open>
  The body that \<^verbatim>\<open>createItem\<close> sends for a draft of the report form: the six declared
  paths, and \<^verbatim>\<open>imageUrl\<close> among the others.
\<close>

definition draft_body :: "NewItem \<Rightarrow> ItemBody" where
  "draft_body d =
     \<lparr>b_type = Some (type_name (n_type d)), b_title = Some (n_title d),
      b_category = Some (category_name (n_category d)),
      b_description = Some (n_description d), b_location = Some (n_location d),
      b_date = Some (n_date d), b_status = None, b_createdAt = None,
      b_other = (case n_imageUrl d of None \<Rightarrow> []
                 | Some u \<Rightarrow> [(''imageUrl'', dquote @ u @ dquote)])\<rparr>"

section \<open>Further state setters of the component\<close>

text \<open>
  \<^verbatim>\<open>setClaimForm\<close> and \<^verbatim>\<open>setNewItem\<close> are called by the \<^verbatim>\<open>onChange\<close> handlers of the two
  forms, \<^verbatim>\<open>setCurrentUser(null)\<close> by the button of the header.
\<close>

definition setClaimForm :: "ClaimForm \<Rightarrow> AppState \<Rightarrow> AppState" where
  "setClaimForm f st = st\<lparr>claimForm := f\<rparr>"

definition setNewItem :: "NewItem \<Rightarrow> AppState \<Rightarrow> AppState" where
  "setNewItem d st = st\<lparr>newItem := d\<rparr>"

definition logout :: "AppState \<Rightarrow> AppState" where
  "logout st = st\<lparr>currentUser := None\<rparr>"

section \<open>The claim schema of the data-layer design\<close>

text \<open>
  \<^verbatim>\<open>ClaimSchema.message\<close> of the schema design file:
  \<^verbatim>\<open>{ type: 'String', required: true, minlength: 20 // Ensure they provide actual proof }\<close>.
\<close>

definition ClaimSchema_message_minlength :: nat where
  "ClaimSchema_message_minlength = 20"

section \<open>Predicates used in the statements\<close>

text \<open>Two items agree on every field except \<open>status\<close>.\<close>

definition same_except_status :: "Item \<Rightarrow> Item \<Rightarrow> bool" where
  "same_except_status a b =
     (item_id a = item_id b \<and> title a = title b \<and> item_type a = item_type b \<and>
      category a = category b \<and> location a = location b \<and> date a = date b \<and>
      description a = description b \<and> imageUrl a = imageUrl b \<and> userId a = userId b \<and>
      claims a = claims b \<and> createdAt a = createdAt b)"

text \<open>No claim of the item was made by the item's own owner.\<close>

definition no_self_claim :: "Item \<Rightarrow> bool" where
  "no_self_claim it = (\<not> list_ex (\<lambda>c. c_userId c = userId it) (claims it))"

text \<open>
  Every listed item that has the id of the selected copy also has its owner. This holds
  when the copy was taken from a list whose ids are distinct.
\<close>

definition snapshot_owner_agrees :: "AppState \<Rightarrow> bool" where
  "snapshot_owner_agrees st =
     (case selectedItem st of
        None \<Rightarrow> True
      | Some sel \<Rightarrow>
          list_all (\<lambda>it. item_id it \<noteq> item_id sel \<or> userId it = userId sel) (items st))"

section \<open>The events of the interface\<close>

text \<open>
  The handlers are closures of the component; they run only when an element that carries
  them is used. An \<open>event\<close> is one use of an element of the rendered page, with the
  values it brings: the text typed, the item clicked, the random id and the time stamps
  that the handler reads. \<open>Reload\<close> is a new visit of the page: the item list and the user
  come back from local storage and every other cell starts again.
\<close>

datatype event =
    ClickEnterCampus string string
  | ClickAdminPortal string string
  | ClickLogout
  | ClickTab Tab
  | TypeSearch string
  | ClickCategory CategoryFilter
  | ChangeDraft NewItem
  | SubmitPost string string string
  | ClickItem Item
  | CloseSheet
  | ChangeClaimForm ClaimForm
  | SubmitClaimForm string
  | ClickApprove string
  | ClickReject string
  | ClickMarkResolved
  | ClickDeletePermanently
  | Reload string

text \<open>
  \<open>rendered st ev\<close>: the element of \<open>ev\<close> is part of the page that the component returns
  in state \<open>st\<close>. Without a user the component returns the login screen only. The
  moderator entry of the navigation bar is rendered for an \<open>ADMIN\<close>; the content of a tab
  is rendered when the tab is active; the cards of the feed are those of \<open>filteredItems\<close>,
  the cards of the trace tab those of \<open>myItems\<close> and \<open>myClaims\<close>, the cards of the
  moderator tab those of \<open>pendingReports\<close>; the sheet is rendered when an item is
  selected, its claim form under \<open>claimFormVisible\<close>, its two override buttons for an
  \<open>ADMIN\<close>. A form whose \<^verbatim>\<open>required\<close> fields are not all filled is not submitted by the
  browser. The draft is written by the report form and also when a photo or an answer of
  the text service arrives, which may be in any state, so \<open>ChangeDraft\<close> is always
  possible. The predicate is about the elements of the returned page, not about which of
  them the sheet covers on the screen.
\<close>

fun rendered :: "AppState \<Rightarrow> event \<Rightarrow> bool" where
  "rendered st (ClickEnterCampus e ms) = (currentUser st = None)"
| "rendered st (ClickAdminPortal e ms) = (currentUser st = None)"
| "rendered st (Reload today) = True"
| "rendered st ClickLogout = (currentUser st \<noteq> None)"
| "rendered st (ClickTab t) =
     (currentUser st \<noteq> None \<and> (t = ADMIN_TAB \<longrightarrow> is_admin (currentUser st)))"
| "rendered st (TypeSearch q) = (currentUser st \<noteq> None \<and> activeTab st = HOME)"
| "rendered st (ClickCategory c) = (currentUser st \<noteq> None \<and> activeTab st = HOME)"
| "rendered st (ChangeDraft d) = True"
| "rendered st (SubmitPost rid now now2) =
     (currentUser st \<noteq> None \<and> activeTab st = POST \<and>
      n_title (newItem st) \<noteq> [] \<and> n_date (newItem st) \<noteq> [] \<and>
      n_location (newItem st) \<noteq> [] \<and> n_description (newItem st) \<noteq> [])"
| "rendered st (ClickItem it) =
     (currentUser st \<noteq> None \<and>
      ((activeTab st = HOME \<and> it \<in> set (filteredItems st)) \<or>
       (activeTab st = MY_TRACE \<and> (it \<in> set (myItems st) \<or> it \<in> set (myClaims st)))))"
| "rendered st CloseSheet = (currentUser st \<noteq> None \<and> selectedItem st \<noteq> None)"
| "rendered st (ChangeClaimForm f) = claimFormVisible st"
| "rendered st (SubmitClaimForm rid) =
     (claimFormVisible st \<and> f_message (claimForm st) \<noteq> [] \<and> f_contact (claimForm st) \<noteq> [])"
| "rendered st (ClickApprove i) =
     (currentUser st \<noteq> None \<and> activeTab st = ADMIN_TAB \<and>
      i \<in> set (map item_id (pendingReports st)))"
| "rendered st (ClickReject i) =
     (currentUser st \<noteq> None \<and> activeTab st = ADMIN_TAB \<and>
      i \<in> set (map item_id (pendingReports st)))"
| "rendered st ClickMarkResolved =
     (selectedItem st \<noteq> None \<and> is_admin (currentUser st))"
| "rendered st ClickDeletePermanently =
     (selectedItem st \<noteq> None \<and> is_admin (currentUser st))"

text \<open>What the handler of the element does.\<close>

fun effect :: "event \<Rightarrow> AppState \<Rightarrow> AppState" where
  "effect (ClickEnterCampus e ms) st = login STUDENT e ms st"
| "effect (ClickAdminPortal e ms) st = login ADMIN e ms st"
| "effect ClickLogout st = logout st"
| "effect (ClickTab t) st = st\<lparr>activeTab := t\<rparr>"
| "effect (TypeSearch q) st = st\<lparr>searchQuery := q\<rparr>"
| "effect (ClickCategory c) st = st\<lparr>activeCategory := c\<rparr>"
| "effect (ChangeDraft d) st = setNewItem d st"
| "effect (SubmitPost rid now now2) st = handlePost rid now now2 st"
| "effect (ClickItem it) st = setSelectedItem it st"
| "effect CloseSheet st = st\<lparr>selectedItem := None\<rparr>"
| "effect (ChangeClaimForm f) st = setClaimForm f st"
| "effect (SubmitClaimForm rid) st = handleClaimSubmit rid st"
| "effect (ClickApprove i) st = handleAdminAction i APPROVE st"
| "effect (ClickReject i) st = handleAdminAction i DELETE st"
| "effect ClickMarkResolved st =
     (case selectedItem st of
        None \<Rightarrow> st
      | Some sel \<Rightarrow> handleAdminAction (item_id sel) MARK_RETURNED st)"
| "effect ClickDeletePermanently st =
     (case selectedItem st of
        None \<Rightarrow> st
      | Some sel \<Rightarrow> handleAdminAction (item_id sel) DELETE st)"
| "effect (Reload today) st =
     (initial_state [] today)\<lparr>items := items st, currentUser := currentUser st\<rparr>"

text \<open>An event on an element that is not rendered does not happen.\<close>

definition step :: "event \<Rightarrow> AppState \<Rightarrow> AppState" where
  "step ev st = (if rendered st ev then effect ev st else st)"

fun run :: "event list \<Rightarrow> AppState \<Rightarrow> AppState" where
  "run [] st = st"
| "run (ev # evs) st = run evs (step ev st)"

text \<open>
  The random id of a new report is new: no listed item has it, and the selected copy
  does not have it. Nothing in the code makes it so.
\<close>

fun fresh_id :: "AppState \<Rightarrow> event \<Rightarrow> bool" where
  "fresh_id st (SubmitPost rid now now2) =
     (rid \<notin> set (map item_id (items st)) \<and>
      (case selectedItem st of None \<Rightarrow> True | Some sel \<Rightarrow> rid \<noteq> item_id sel))"
| "fresh_id st ev = True"

fun fresh_ids :: "event list \<Rightarrow> AppState \<Rightarrow> bool" where
  "fresh_ids [] st = True"
| "fresh_ids (ev # evs) st = (fresh_id st ev \<and> fresh_ids evs (step ev st))"

text \<open>
  The invariant of the sessions with new ids: the ids of the list are distinct, no item
  holds a claim of its owner, and the selected copy agrees with the list on the owner.
\<close>

definition claims_inv :: "AppState \<Rightarrow> bool" where
  "claims_inv st =
     (distinct (map item_id (items st)) \<and> list_all no_self_claim (items st) \<and>
      snapshot_owner_agrees st)"

text \<open>
  A second invariant of the sessions with new ids: the ids of the list are distinct, an
  item that is pending or unclaimed holds no claim, no item holds more than one claim, and
  when the selected copy is unclaimed the listed items that have its id hold no claim.
\<close>

definition one_claim_inv :: "AppState \<Rightarrow> bool" where
  "one_claim_inv st =
     (distinct (map item_id (items st)) \<and>
      list_all (\<lambda>it. (status it = PENDING_APPROVAL \<or> status it = UNCLAIMED) \<longrightarrow> claims it = [])
               (items st) \<and>
      list_all (\<lambda>it. length (claims it) \<le> 1) (items st) \<and>
      (case selectedItem st of
         None \<Rightarrow> True
       | Some sel \<Rightarrow>
           status sel = UNCLAIMED \<longrightarrow>
           list_all (\<lambda>it. item_id it = item_id sel \<longrightarrow> claims it = []) (items st)))"

section \<open>Concrete sessions\<close>

text \<open>A first visit, and the two ways to log in.\<close>

definition demo_init :: AppState where
  "demo_init = initial_state ''2024-06-01T09:00:00.000Z'' ''2024-06-01''"

definition demo_student :: AppState where
  "demo_student = login STUDENT ''amy@uni.edu'' ''1717232400000'' demo_init"

definition demo_admin :: AppState where
  "demo_admin = login ADMIN ''mod@uni.edu'' ''1717232500000'' demo_init"

text \<open>The student fills the report form and submits it.\<close>

definition demo_draft :: NewItem where
  "demo_draft =
     \<lparr>n_title = ''MacBook Air'', n_type = LOST, n_category = ELECTRONICS,
      n_location = ''Lab 3'', n_date = ''2024-05-15'',
      n_description = ''silver, rocket sticker'', n_imageUrl = Some []\<rparr>"

definition demo_posted :: AppState where
  "demo_posted =
     handlePost ''k3x9q2m1z'' ''2024-06-01T09:05:00.000Z'' ''2024-06-01T09:05:00.001Z''
       (setNewItem demo_draft demo_student)"

definition demo_form :: ClaimForm where
  "demo_form =
     \<lparr>f_message = ''it has a rocket sticker on the lid and a dent on the corner'',
      f_contact = ''b@uni.edu''\<rparr>"

text \<open>
  The moderator opens item 1 of the feed, presses \<^emph>\<open>Mark as Resolved\<close> in the sheet, and
  fills the claim form that the sheet still shows.
\<close>

definition demo_returned :: AppState where
  "demo_returned =
     setClaimForm demo_form
       (handleAdminAction ''1'' MARK_RETURNED
          (setSelectedItem (hd (items demo_admin)) demo_admin))"

text \<open>The student's own report as the selected item.\<close>

definition demo_own_selected :: AppState where
  "demo_own_selected =
     setClaimForm demo_form (setSelectedItem (hd (items demo_posted)) demo_posted)"

text \<open>The student opens item 2 of the feed and types a four-letter message.\<close>

definition demo_short :: AppState where
  "demo_short =
     setClaimForm \<lparr>f_message = ''mine'', f_contact = ''555-0100''\<rparr>
       (setSelectedItem (hd (tl (items demo_student))) demo_student)"

text \<open>The student opens item 2 of the feed, fills the claim form and submits it.\<close>

definition demo_claiming :: AppState where
  "demo_claiming =
     setClaimForm demo_form (setSelectedItem (hd (tl (items demo_student))) demo_student)"

definition demo_claimed :: AppState where
  "demo_claimed = handleClaimSubmit ''c7f2k1q0x'' demo_claiming"

text \<open>
  The sessions above as sequences of events from the first visit, and one more: after the
  student's report the moderator logs in and posts a report for which \<^verbatim>\<open>Math.random\<close>
  yields the same id, approves it in the moderator tab, opens the student's report in the
  feed and submits the claim form.
\<close>

definition trace_returned :: "event list" where
  "trace_returned =
     [ClickAdminPortal ''mod@uni.edu'' ''1717232500000'',
      ClickItem (hd (INITIAL_ITEMS ''2024-06-01T09:00:00.000Z'')),
      ClickMarkResolved,
      ChangeClaimForm demo_form]"

definition trace_short :: "event list" where
  "trace_short =
     [ClickEnterCampus ''amy@uni.edu'' ''1717232400000'',
      ClickItem (hd (tl (INITIAL_ITEMS ''2024-06-01T09:00:00.000Z''))),
      ChangeClaimForm \<lparr>f_message = ''mine'', f_contact = ''555-0100''\<rparr>]"

definition trace_claimed :: "event list" where
  "trace_claimed =
     [ClickEnterCampus ''amy@uni.edu'' ''1717232400000'',
      ClickItem (hd (tl (INITIAL_ITEMS ''2024-06-01T09:00:00.000Z''))),
      ChangeClaimForm demo_form,
      SubmitClaimForm ''c7f2k1q0x'']"

definition trace_same_id :: "event list" where
  "trace_same_id =
     [ClickEnterCampus ''amy@uni.edu'' ''1717232400000'',
      ClickTab POST,
      ChangeDraft demo_draft,
      SubmitPost ''k3x9q2m1z'' ''2024-06-01T09:05:00.000Z'' ''2024-06-01T09:05:00.001Z'',
      ClickLogout,
      ClickAdminPortal ''mod@uni.edu'' ''1717236000000'',
      ClickTab POST,
      ChangeDraft demo_draft,
      SubmitPost ''k3x9q2m1z'' ''2024-06-01T10:00:00.000Z'' ''2024-06-01T10:00:00.001Z'',
      ClickTab ADMIN_TAB,
      ClickApprove ''k3x9q2m1z'',
      ClickTab HOME,
      ClickItem (new_item demo_draft ''k3x9q2m1z'' ''u-1717232400000''
                   ''2024-06-01T09:05:00.000Z'' \<lparr>status := UNCLAIMED\<rparr>),
      ChangeClaimForm demo_form,
      SubmitClaimForm ''c7f2k1q0x'']"

text \<open>
  A whole life of a report: a student posts it, the moderator approves it, a second
  student claims it, and the moderator marks it as returned.
\<close>

definition trace_lifecycle :: "event list" where
  "trace_lifecycle =
     [ClickEnterCampus ''amy@uni.edu'' ''1717232400000'',
      ClickTab POST,
      ChangeDraft demo_draft,
      SubmitPost ''k3x9q2m1z'' ''2024-06-01T09:05:00.000Z'' ''2024-06-01T09:05:00.001Z'',
      ClickLogout,
      ClickAdminPortal ''mod@uni.edu'' ''1717236000000'',
      ClickTab ADMIN_TAB,
      ClickApprove ''k3x9q2m1z'',
      ClickLogout,
      ClickEnterCampus ''ben@uni.edu'' ''1717239600000'',
      ClickTab HOME,
      ClickItem (new_item demo_draft ''k3x9q2m1z'' ''u-1717232400000''
                   ''2024-06-01T09:05:00.000Z'' \<lparr>status := UNCLAIMED\<rparr>),
      ChangeClaimForm demo_form,
      SubmitClaimForm ''c7f2k1q0x'',
      ClickLogout,
      ClickAdminPortal ''mod@uni.edu'' ''1717243200000'',
      ClickTab HOME,
      ClickItem (new_item demo_draft ''k3x9q2m1z'' ''u-1717232400000''
                   ''2024-06-01T09:05:00.000Z''
                   \<lparr>status := CLAIM_REQUESTED,
                    claims := [new_claim ''c7f2k1q0x''
                      \<lparr>u_id = ''u-1717239600000'', email = ''ben@uni.edu'', role = STUDENT\<rparr>
                      demo_form]\<rparr>),
      ClickMarkResolved]"

text \<open>
  The first seven events of that life: the report is posted and the moderator is on the
  moderator tab.
\<close>

definition trace_to_approve :: "event list" where
  "trace_to_approve = take 7 trace_lifecycle"

text \<open>
  The same id drawn twice, seen from the moderator tab: the student's report is approved
  and then marked as returned in the sheet, the moderator posts a report for which
  \<^verbatim>\<open>Math.random\<close> yields the id of the student's report, and opens the moderator tab.
\<close>

definition trace_approve_same_id :: "event list" where
  "trace_approve_same_id =
     [ClickEnterCampus ''amy@uni.edu'' ''1717232400000'',
      ClickTab POST,
      ChangeDraft demo_draft,
      SubmitPost ''k3x9q2m1z'' ''2024-06-01T09:05:00.000Z'' ''2024-06-01T09:05:00.001Z'',
      ClickLogout,
      ClickAdminPortal ''mod@uni.edu'' ''1717236000000'',
      ClickTab ADMIN_TAB,
      ClickApprove ''k3x9q2m1z'',
      ClickTab HOME,
      ClickItem (new_item demo_draft ''k3x9q2m1z'' ''u-1717232400000''
                   ''2024-06-01T09:05:00.000Z'' \<lparr>status := UNCLAIMED\<rparr>),
      ClickMarkResolved,
      CloseSheet,
      ClickTab POST,
      ChangeDraft demo_draft,
      SubmitPost ''k3x9q2m1z'' ''2024-06-01T10:00:00.000Z'' ''2024-06-01T10:00:00.001Z'',
      ClickTab ADMIN_TAB]"

section \<open>Helper lemmas\<close>

lemma includes_str_Nil: "includes_str s []"
  by (cases s) simp_all

lemmas session_defs =
  step_def demo_init_def initial_state_def INITIAL_ITEMS_def login_def logout_def
  handlePost_def new_item_def blank_newItem_def split_T_0_def new_claim_def
  handleClaimSubmit_def handleAdminAction_def setSelectedItem_def setClaimForm_def
  setNewItem_def claimFormVisible_def filteredItems_def matchSearch_def matchCategory_def
  isVisible_def owns_def is_admin_def toLowerCase_def includes_str_Nil pendingReports_def
  myItems_def myClaims_def

lemma step_rendered: "rendered st ev \<Longrightarrow> step ev st = effect ev st"
  by (simp add: step_def)

lemma step_not_rendered: "\<not> rendered st ev \<Longrightarrow> step ev st = st"
  by (simp add: step_def)

lemma demo_posted_items:
  "items demo_posted =
     new_item demo_draft ''k3x9q2m1z'' ''u-1717232400000'' ''2024-06-01T09:05:00.000Z''
     # INITIAL_ITEMS ''2024-06-01T09:00:00.000Z''"
  by (simp add: demo_posted_def demo_student_def demo_init_def initial_state_def login_def
      handlePost_def setNewItem_def)

lemma demo_posted_user:
  "currentUser demo_posted =
     Some \<lparr>u_id = ''u-1717232400000'', email = ''amy@uni.edu'', role = STUDENT\<rparr>"
  by (simp add: demo_posted_def demo_student_def demo_init_def initial_state_def login_def
      handlePost_def setNewItem_def)

lemma demo_posted_filter:
  "searchQuery demo_posted = [] \<and> activeCategory demo_posted = ALL_ITEMS"
  by (simp add: demo_posted_def demo_student_def demo_init_def initial_state_def login_def
      handlePost_def setNewItem_def)

section \<open>Visibility of pending items in the feed\<close>

text \<open>
  C1. Whatever the item list, the viewer, the search query and the category filter are,
  an item of \<open>filteredItems\<close> whose status is \<open>PENDING_APPROVAL\<close> belongs to the viewer or
  the viewer is an administrator; for every other viewer, and with nobody logged in, a
  pending item is left out whether or not it matches the two filters.
\<close>

theorem filteredItems_pending_owner_or_admin:
  assumes "it \<in> set (filteredItems st)" and "status it = PENDING_APPROVAL"
  shows "\<exists>u. currentUser st = Some u \<and> (u_id u = userId it \<or> role u = ADMIN)"
  using assms
  by (auto simp: filteredItems_def isVisible_def owns_def is_admin_def split: option.splits)

theorem filteredItems_pending_owner_or_admin_witness:
  "hd (items demo_posted) \<in> set (filteredItems demo_posted) \<and>
   status (hd (items demo_posted)) = PENDING_APPROVAL \<and>
   (\<exists>u. currentUser demo_posted = Some u \<and>
        (u_id u = userId (hd (items demo_posted)) \<or> role u = ADMIN))"
proof -
  have h1: "hd (items demo_posted) \<in> set (filteredItems demo_posted)"
    by (simp add: filteredItems_def matchSearch_def matchCategory_def isVisible_def owns_def
        toLowerCase_def includes_str_Nil demo_posted_items demo_posted_user demo_posted_filter
        new_item_def)
  have h2: "status (hd (items demo_posted)) = PENDING_APPROVAL"
    by (simp add: demo_posted_items new_item_def)
  from filteredItems_pending_owner_or_admin [OF h1 h2] h1 h2 show ?thesis by simp
qed

section \<open>Approval\<close>

lemma approve_items:
  "items (handleAdminAction i APPROVE st) =
     map (\<lambda>it. if item_id it = i then it\<lparr>status := UNCLAIMED\<rparr> else it) (items st)"
  by (simp add: handleAdminAction_def)

lemma approve_leaves_none_pending:
  "i \<notin> set (map item_id (pendingReports (handleAdminAction i APPROVE st)))"
proof
  assume "i \<in> set (map item_id (pendingReports (handleAdminAction i APPROVE st)))"
  then obtain x where x: "x \<in> set (items (handleAdminAction i APPROVE st))"
    and p: "status x = PENDING_APPROVAL" and xi: "item_id x = i"
    unfolding pendingReports_def by auto
  from x
  have "x \<in> (\<lambda>it. if item_id it = i then it\<lparr>status := UNCLAIMED\<rparr> else it) ` set (items st)"
    unfolding approve_items by simp
  then obtain it where "x = (if item_id it = i then it\<lparr>status := UNCLAIMED\<rparr> else it)"
    by (rule imageE)
  with p xi show False by (cases "item_id it = i") simp_all
qed

lemma approve_twice:
  "handleAdminAction i APPROVE (handleAdminAction i APPROVE st) = handleAdminAction i APPROVE st"
  by (simp add: handleAdminAction_def o_def cong: if_cong)

lemma rendered_ClickApprove_pending:
  assumes "rendered st (ClickApprove i)"
  shows "\<exists>it \<in> set (items st). item_id it = i \<and> status it = PENDING_APPROVAL"
  using assms by (auto simp: pendingReports_def)

lemma not_pending_not_rendered:
  assumes "\<forall>it \<in> set (items st). item_id it = i \<longrightarrow> status it \<noteq> PENDING_APPROVAL"
  shows "\<not> rendered st (ClickApprove i)"
proof
  assume "rendered st (ClickApprove i)"
  then obtain it where "it \<in> set (items st)" "item_id it = i" "status it = PENDING_APPROVAL"
    using rendered_ClickApprove_pending by blast
  with assms show False by blast
qed

lemma approve_distinct_only_pending:
  assumes dis: "distinct (map item_id (items st))" and ren: "rendered st (ClickApprove i)"
    and it: "it \<in> set (items st)" and id: "item_id it = i"
  shows "status it = PENDING_APPROVAL"
proof -
  from ren obtain x where x: "x \<in> set (items st)" "item_id x = i" "status x = PENDING_APPROVAL"
    using rendered_ClickApprove_pending by blast
  from dis have "inj_on item_id (set (items st))" by (simp add: distinct_map)
  with x it id have "x = it" by (auto dest: inj_onD)
  with x show ?thesis by simp
qed

lemma step_ClickApprove_twice:
  "step (ClickApprove i) (step (ClickApprove i) st) = step (ClickApprove i) st"
proof (cases "rendered st (ClickApprove i)")
  case True
  have nr: "\<not> rendered (handleAdminAction i APPROVE st) (ClickApprove i)"
    using approve_leaves_none_pending [of i st] by simp
  from step_rendered [OF True]
  have e: "step (ClickApprove i) st = handleAdminAction i APPROVE st" by simp
  show ?thesis unfolding e using nr by (rule step_not_rendered)
next
  case False
  from step_not_rendered [OF False] have e: "step (ClickApprove i) st = st" .
  show ?thesis by (simp only: e)
qed

section \<open>Claim submission\<close>

lemma handleClaimSubmit_items:
  assumes "selectedItem st = Some sel" and "currentUser st = Some u"
  shows "items (handleClaimSubmit rid st) =
     map (\<lambda>it. if item_id it = item_id sel
               then it\<lparr>status := CLAIM_REQUESTED,
                       claims := claims it @ [new_claim rid u (claimForm st)]\<rparr>
               else it) (items st)"
  using assms by (simp add: handleClaimSubmit_def)

lemma handleClaimSubmit_selected:
  assumes "selectedItem st = Some sel" and "currentUser st = Some u"
  shows "selectedItem (handleClaimSubmit rid st) = None"
    and "currentUser (handleClaimSubmit rid st) = Some u"
  using assms by (simp_all add: handleClaimSubmit_def)

lemma demo_claiming_facts:
  "selectedItem demo_claiming = Some (hd (tl (INITIAL_ITEMS ''2024-06-01T09:00:00.000Z''))) \<and>
   currentUser demo_claiming =
     Some \<lparr>u_id = ''u-1717232400000'', email = ''amy@uni.edu'', role = STUDENT\<rparr> \<and>
   items demo_claiming = INITIAL_ITEMS ''2024-06-01T09:00:00.000Z'' \<and>
   claimForm demo_claiming = demo_form"
  by (simp add: demo_claiming_def demo_student_def demo_init_def initial_state_def login_def
      setSelectedItem_def setClaimForm_def)

lemma trace_claimed_run: "run trace_claimed demo_init = demo_claimed"
  by (simp add: trace_claimed_def demo_claimed_def demo_claiming_def demo_student_def
      demo_form_def session_defs)

section \<open>Claims by the owner of an item\<close>

lemma no_self_claim_status: "no_self_claim (it\<lparr>status := s\<rparr>) = no_self_claim it"
  by (simp add: no_self_claim_def)

lemma no_self_claim_new_item: "no_self_claim (new_item d rid uid now)"
  by (simp add: no_self_claim_def new_item_def)

lemma handlePost_no_self_claim:
  "list_all no_self_claim (items st) \<Longrightarrow>
   list_all no_self_claim (items (handlePost rid now now2 st))"
  by (simp add: handlePost_def no_self_claim_new_item split: option.splits)

lemma handleAdminAction_no_self_claim:
  "list_all no_self_claim (items st) \<Longrightarrow>
   list_all no_self_claim (items (handleAdminAction i a st))"
  by (cases a) (auto simp: handleAdminAction_def list_all_iff no_self_claim_status)

lemma handleClaimSubmit_no_self_claim:
  assumes inv: "list_all no_self_claim (items st)"
    and vis: "claimFormVisible st"
    and agr: "snapshot_owner_agrees st"
  shows "list_all no_self_claim (items (handleClaimSubmit rid st))"
proof -
  from vis obtain sel u where sel: "selectedItem st = Some sel" and usr: "currentUser st = Some u"
    and neq: "userId sel \<noteq> u_id u"
    by (auto simp: claimFormVisible_def split: option.splits)
  from agr sel
  have own: "\<forall>it \<in> set (items st). item_id it = item_id sel \<longrightarrow> userId it = userId sel"
    by (auto simp: snapshot_owner_agrees_def list_all_iff)
  have "no_self_claim (it\<lparr>status := CLAIM_REQUESTED,
          claims := claims it @ [new_claim rid u (claimForm st)]\<rparr>)"
    if "it \<in> set (items st)" and "item_id it = item_id sel" for it
  proof -
    from that own have "userId it = userId sel" by blast
    moreover from inv that have "no_self_claim it" by (simp add: list_all_iff)
    ultimately show ?thesis using neq
      by (simp add: no_self_claim_def new_claim_def list_ex_iff)
  qed
  with inv show ?thesis
    by (auto simp: handleClaimSubmit_def sel usr list_all_iff)
qed

lemma setSelectedItem_owner_agrees:
  assumes "distinct (map item_id (items st))" and "it \<in> set (items st)"
  shows "snapshot_owner_agrees (setSelectedItem it st)"
proof -
  have "userId x = userId it" if "x \<in> set (items st)" and "item_id x = item_id it" for x
    using assms that by (metis distinct_map inj_onD)
  then show ?thesis
    by (auto simp: snapshot_owner_agrees_def setSelectedItem_def list_all_iff)
qed

lemma handleAdminAction_owner_agrees:
  assumes "snapshot_owner_agrees st"
  shows "snapshot_owner_agrees (handleAdminAction i a st)"
  using assms
  by (cases a)
     (auto simp: snapshot_owner_agrees_def handleAdminAction_def list_all_iff
           split: option.splits)

lemma claims_inv_same_items:
  assumes "claims_inv st" and "items st' = items st" and "selectedItem st' = selectedItem st"
  shows "claims_inv st'"
  using assms unfolding claims_inv_def snapshot_owner_agrees_def
  by (simp split: option.splits)

lemma claims_inv_deselect:
  assumes "claims_inv st" and "items st' = items st" and "selectedItem st' = None"
  shows "claims_inv st'"
  using assms unfolding claims_inv_def snapshot_owner_agrees_def by simp

lemma handleAdminAction_ids:
  "distinct (map item_id (items st)) \<Longrightarrow>
   distinct (map item_id (items (handleAdminAction i a st)))"
proof (cases a)
  case DELETE
  assume "distinct (map item_id (items st))"
  then show ?thesis
    by (simp add: DELETE handleAdminAction_def distinct_map_filter)
next
  case APPROVE
  have "map item_id (items (handleAdminAction i a st)) = map item_id (items st)"
    by (simp add: APPROVE handleAdminAction_def o_def if_distrib cong: if_cong)
  moreover assume "distinct (map item_id (items st))"
  ultimately show ?thesis by simp
next
  case MARK_RETURNED
  have "map item_id (items (handleAdminAction i a st)) = map item_id (items st)"
    by (simp add: MARK_RETURNED handleAdminAction_def o_def if_distrib cong: if_cong)
  moreover assume "distinct (map item_id (items st))"
  ultimately show ?thesis by simp
qed

lemma claims_inv_handleAdminAction:
  assumes "claims_inv st"
  shows "claims_inv (handleAdminAction i a st)"
  using assms
  by (simp add: claims_inv_def handleAdminAction_ids handleAdminAction_no_self_claim
      handleAdminAction_owner_agrees)

lemma handleClaimSubmit_ids:
  "map item_id (items (handleClaimSubmit rid st)) = map item_id (items st)"
  by (simp add: handleClaimSubmit_def o_def if_distrib split: option.splits cong: if_cong)

lemma claims_inv_handleClaimSubmit:
  assumes "claims_inv st" and "claimFormVisible st"
  shows "claims_inv (handleClaimSubmit rid st)"
proof -
  from assms(2) obtain sel u where su: "selectedItem st = Some sel" "currentUser st = Some u"
    by (auto simp: claimFormVisible_def split: option.splits)
  have "selectedItem (handleClaimSubmit rid st) = None"
    using su by (rule handleClaimSubmit_selected)
  then have "snapshot_owner_agrees (handleClaimSubmit rid st)"
    by (simp add: snapshot_owner_agrees_def)
  with assms show ?thesis
    by (simp add: claims_inv_def handleClaimSubmit_ids handleClaimSubmit_no_self_claim)
qed

lemma claims_inv_handlePost:
  assumes inv: "claims_inv st" and fresh: "fresh_id st (SubmitPost rid now now2)"
  shows "claims_inv (handlePost rid now now2 st)"
proof (cases "currentUser st")
  case None
  with inv show ?thesis by (simp add: handlePost_def)
next
  case (Some u)
  let ?n = "new_item (newItem st) rid (u_id u) now"
  have its: "items (handlePost rid now now2 st) = ?n # items st"
    and sel: "selectedItem (handlePost rid now now2 st) = selectedItem st"
    by (simp_all add: handlePost_def Some)
  have nid: "item_id ?n = rid" by (simp add: new_item_def)
  from inv fresh have "distinct (map item_id (?n # items st))"
    by (simp add: claims_inv_def nid)
  moreover from inv have "list_all no_self_claim (?n # items st)"
    by (simp add: claims_inv_def no_self_claim_new_item)
  moreover from inv fresh have "snapshot_owner_agrees (handlePost rid now now2 st)"
    by (auto simp: claims_inv_def snapshot_owner_agrees_def its sel nid split: option.splits)
  ultimately show ?thesis by (simp add: claims_inv_def its)
qed

lemma rendered_ClickItem_listed:
  assumes "rendered st (ClickItem it)"
  shows "it \<in> set (items st)"
  using assms by (auto simp: filteredItems_def myItems_def myClaims_def)

lemma claims_inv_select:
  assumes "claims_inv st" and "it \<in> set (items st)"
  shows "claims_inv (setSelectedItem it st)"
proof -
  from assms have "snapshot_owner_agrees (setSelectedItem it st)"
    by (simp add: claims_inv_def setSelectedItem_owner_agrees)
  with assms(1) show ?thesis
    by (simp add: claims_inv_def setSelectedItem_def)
qed

text \<open>Every event keeps the invariant: one case for each element of the page.\<close>

lemma claims_inv_effect:
  assumes inv: "claims_inv st" and ren: "rendered st ev" and fresh: "fresh_id st ev"
  shows "claims_inv (effect ev st)"
proof (cases ev)
  case (ClickEnterCampus e ms)
  show ?thesis unfolding ClickEnterCampus
    by (rule claims_inv_same_items [OF inv]) (simp_all add: login_def)
next
  case (ClickAdminPortal e ms)
  show ?thesis unfolding ClickAdminPortal
    by (rule claims_inv_same_items [OF inv]) (simp_all add: login_def)
next
  case ClickLogout
  show ?thesis unfolding ClickLogout
    by (rule claims_inv_same_items [OF inv]) (simp_all add: logout_def)
next
  case (ClickTab t)
  show ?thesis unfolding ClickTab
    by (rule claims_inv_same_items [OF inv]) simp_all
next
  case (TypeSearch q)
  show ?thesis unfolding TypeSearch
    by (rule claims_inv_same_items [OF inv]) simp_all
next
  case (ClickCategory c)
  show ?thesis unfolding ClickCategory
    by (rule claims_inv_same_items [OF inv]) simp_all
next
  case (ChangeDraft d)
  show ?thesis unfolding ChangeDraft
    by (rule claims_inv_same_items [OF inv]) (simp_all add: setNewItem_def)
next
  case (SubmitPost rid now now2)
  with inv fresh show ?thesis by (simp add: claims_inv_handlePost)
next
  case (ClickItem it)
  with ren have "it \<in> set (items st)" by (simp add: rendered_ClickItem_listed)
  with inv ClickItem show ?thesis by (simp add: claims_inv_select)
next
  case CloseSheet
  show ?thesis unfolding CloseSheet
    by (rule claims_inv_deselect [OF inv]) simp_all
next
  case (ChangeClaimForm f)
  show ?thesis unfolding ChangeClaimForm
    by (rule claims_inv_same_items [OF inv]) (simp_all add: setClaimForm_def)
next
  case (SubmitClaimForm rid)
  with inv ren show ?thesis by (simp add: claims_inv_handleClaimSubmit)
next
  case (ClickApprove i)
  with inv show ?thesis by (simp add: claims_inv_handleAdminAction)
next
  case (ClickReject i)
  with inv show ?thesis by (simp add: claims_inv_handleAdminAction)
next
  case ClickMarkResolved
  with inv show ?thesis by (simp add: claims_inv_handleAdminAction split: option.splits)
next
  case ClickDeletePermanently
  with inv show ?thesis by (simp add: claims_inv_handleAdminAction split: option.splits)
next
  case (Reload today)
  show ?thesis unfolding Reload
    by (rule claims_inv_deselect [OF inv]) (simp_all add: initial_state_def)
qed

lemma claims_inv_step:
  assumes "claims_inv st" and "fresh_id st ev"
  shows "claims_inv (step ev st)"
  using assms by (simp add: step_def claims_inv_effect)

lemma claims_inv_run:
  assumes "claims_inv st" and "fresh_ids evs st"
  shows "claims_inv (run evs st)"
  using assms
proof (induction evs arbitrary: st)
  case Nil
  then show ?case by simp
next
  case (Cons ev evs)
  from Cons.prems have "claims_inv (step ev st)" and "fresh_ids evs (step ev st)"
    by (simp_all add: claims_inv_step)
  then have "claims_inv (run evs (step ev st))" by (rule Cons.IH)
  then show ?case by simp
qed

lemma claims_inv_initial: "claims_inv (initial_state t0 today)"
  by (simp add: claims_inv_def initial_state_def INITIAL_ITEMS_def no_self_claim_def
      snapshot_owner_agrees_def)

text \<open>
  C4, as stated, fails. First, \<open>handleClaimSubmit\<close> does not compare the claimant with
  the owner: called with the student's own report as the selected item it appends the
  student's claim to it. Second, through the rendered form too a state is reached in which
  an item holds a claim of its owner: ids come from \<^verbatim>\<open>Math.random\<close> and are not checked
  for uniqueness, and in the session of \<open>trace_same_id\<close> the moderator claims the student's
  report while the moderator's own report has the same id, so that both receive the claim.
\<close>

theorem claim_by_owner_counterexample:
  "currentUser demo_own_selected =
     Some \<lparr>u_id = ''u-1717232400000'', email = ''amy@uni.edu'', role = STUDENT\<rparr> \<and>
   map_option userId (selectedItem demo_own_selected) = Some ''u-1717232400000'' \<and>
   map (\<lambda>it. (userId it, map c_userId (claims it)))
       (items (handleClaimSubmit ''c7f2k1q0x'' demo_own_selected))
     = [(''u-1717232400000'', [''u-1717232400000'']),
        (''user-1'', []), (''user-2'', []), (''user-3'', [])] \<and>
   map (\<lambda>it. (item_id it, userId it, map c_userId (claims it)))
       (items (run trace_same_id demo_init))
     = [(''k3x9q2m1z'', ''a-1717236000000'', [''a-1717236000000'']),
        (''k3x9q2m1z'', ''u-1717232400000'', [''a-1717236000000'']),
        (''1'', ''user-1'', []), (''2'', ''user-2'', []), (''3'', ''user-3'', [])] \<and>
   \<not> list_all no_self_claim (items (run trace_same_id demo_init))"
proof -
  have own: "currentUser demo_own_selected =
     Some \<lparr>u_id = ''u-1717232400000'', email = ''amy@uni.edu'', role = STUDENT\<rparr> \<and>
   map_option userId (selectedItem demo_own_selected) = Some ''u-1717232400000'' \<and>
   map (\<lambda>it. (userId it, map c_userId (claims it)))
       (items (handleClaimSubmit ''c7f2k1q0x'' demo_own_selected))
     = [(''u-1717232400000'', [''u-1717232400000'']),
        (''user-1'', []), (''user-2'', []), (''user-3'', [])]"
    by (simp add: demo_own_selected_def demo_posted_def demo_student_def demo_draft_def
        demo_form_def session_defs)
  have run: "map (\<lambda>it. (item_id it, userId it, map c_userId (claims it)))
       (items (run trace_same_id demo_init))
     = [(''k3x9q2m1z'', ''a-1717236000000'', [''a-1717236000000'']),
        (''k3x9q2m1z'', ''u-1717232400000'', [''a-1717236000000'']),
        (''1'', ''user-1'', []), (''2'', ''user-2'', []), (''3'', ''user-3'', [])]"
    by (simp add: trace_same_id_def demo_draft_def demo_form_def session_defs)
  have viol: "\<not> list_all no_self_claim (items (run trace_same_id demo_init))"
    by (simp add: trace_same_id_def demo_draft_def demo_form_def session_defs
        no_self_claim_def)
  from own run viol show ?thesis by blast
qed

text \<open>
  C4, amended. The guard against a claim by the owner is the render condition of the claim
  form: when the selected copy belongs to the viewer, the form is not rendered and a
  submission does not happen. Consequently, in every state reached from a first visit by
  events of the interface in which every new report receives an id that no listed item and
  not the selected copy has, no item holds a claim whose claimant is the owner of the item.
\<close>

theorem no_claim_by_owner_with_new_ids:
  "(currentUser st = Some u \<and> selectedItem st = Some sel \<and> userId sel = u_id u \<longrightarrow>
      \<not> rendered st (SubmitClaimForm rid) \<and> step (SubmitClaimForm rid) st = st) \<and>
   (fresh_ids evs (initial_state t0 today) \<longrightarrow>
      list_all no_self_claim (items (run evs (initial_state t0 today)))) \<and>
   (claims_inv st \<and> fresh_ids evs st \<longrightarrow> claims_inv (run evs st))"
proof (intro conjI impI)
  assume a: "currentUser st = Some u \<and> selectedItem st = Some sel \<and> userId sel = u_id u"
  then show nr: "\<not> rendered st (SubmitClaimForm rid)"
    by (simp add: claimFormVisible_def)
  show "step (SubmitClaimForm rid) st = st"
    unfolding step_def using nr by (rule if_not_P)
next
  assume "fresh_ids evs (initial_state t0 today)"
  with claims_inv_initial have "claims_inv (run evs (initial_state t0 today))"
    by (rule claims_inv_run)
  then show "list_all no_self_claim (items (run evs (initial_state t0 today)))"
    by (simp add: claims_inv_def)
next
  assume "claims_inv st \<and> fresh_ids evs st"
  then show "claims_inv (run evs st)"
    by (simp add: claims_inv_run)
qed

theorem no_claim_by_owner_with_new_ids_witness:
  "currentUser demo_own_selected =
     Some \<lparr>u_id = ''u-1717232400000'', email = ''amy@uni.edu'', role = STUDENT\<rparr> \<and>
   map_option userId (selectedItem demo_own_selected) = Some ''u-1717232400000'' \<and>
   step (SubmitClaimForm ''c7f2k1q0x'') demo_own_selected = demo_own_selected \<and>
   fresh_ids trace_lifecycle demo_init \<and>
   list_all no_self_claim (items (run trace_lifecycle demo_init)) \<and>
   map (\<lambda>it. (item_id it, userId it, status it, map c_userId (claims it)))
       (items (run trace_lifecycle demo_init))
     = [(''k3x9q2m1z'', ''u-1717232400000'', RETURNED, [''u-1717239600000'']),
        (''1'', ''user-1'', UNCLAIMED, []), (''2'', ''user-2'', UNCLAIMED, []),
        (''3'', ''user-3'', PENDING_APPROVAL, [])]"
proof -
  let ?u = "\<lparr>u_id = ''u-1717232400000'', email = ''amy@uni.edu'', role = STUDENT\<rparr>"
  let ?sel = "hd (items demo_posted)"
  have usr: "currentUser demo_own_selected = Some ?u"
    and sel: "selectedItem demo_own_selected = Some ?sel"
    and own: "userId ?sel = u_id ?u"
    by (simp_all add: demo_own_selected_def setClaimForm_def setSelectedItem_def
        demo_posted_user demo_posted_items new_item_def)
  have fresh: "fresh_ids trace_lifecycle demo_init"
    by (simp add: trace_lifecycle_def demo_draft_def demo_form_def session_defs)
  have final: "map (\<lambda>it. (item_id it, userId it, status it, map c_userId (claims it)))
       (items (run trace_lifecycle demo_init))
     = [(''k3x9q2m1z'', ''u-1717232400000'', RETURNED, [''u-1717239600000'']),
        (''1'', ''user-1'', UNCLAIMED, []), (''2'', ''user-2'', UNCLAIMED, []),
        (''3'', ''user-3'', PENDING_APPROVAL, [])]"
    by (simp add: trace_lifecycle_def demo_draft_def demo_form_def session_defs)
  note t = no_claim_by_owner_with_new_ids
    [of demo_own_selected ?u ?sel "''c7f2k1q0x''" trace_lifecycle
        "''2024-06-01T09:00:00.000Z''" "''2024-06-01''"]
  from t usr sel own
  have a: "step (SubmitClaimForm ''c7f2k1q0x'') demo_own_selected = demo_own_selected"
    by blast
  from t fresh have b: "list_all no_self_claim (items (run trace_lifecycle demo_init))"
    unfolding demo_init_def by blast
  from sel own have s: "map_option userId (selectedItem demo_own_selected) = Some ''u-1717232400000''"
    by simp
  from usr s a fresh b final show ?thesis by blast
qed

section \<open>Approval on the page\<close>

text \<open>
  C2, as stated, fails: \<open>handleAdminAction\<close> with \<open>APPROVE\<close> does not look at the status
  of the items it changes, and the page calls it with the id of a pending report only.
  In the session \<open>trace_approve_same_id\<close>, where each event is on a rendered element,
  \<^verbatim>\<open>Math.random\<close> yields for the moderator's report the id of the student's report, which
  is \<open>RETURNED\<close> by then. The Approve button of the moderator's pending report is rendered,
  and the click also moves the student's report from \<open>RETURNED\<close> to \<open>UNCLAIMED\<close>.
\<close>

theorem approve_on_returned_item_counterexample:
  "rendered (run trace_approve_same_id demo_init) (ClickApprove ''k3x9q2m1z'') \<and>
   map (\<lambda>it. (item_id it, userId it, status it)) (items (run trace_approve_same_id demo_init))
     = [(''k3x9q2m1z'', ''a-1717236000000'', PENDING_APPROVAL),
        (''k3x9q2m1z'', ''u-1717232400000'', RETURNED),
        (''1'', ''user-1'', UNCLAIMED), (''2'', ''user-2'', UNCLAIMED),
        (''3'', ''user-3'', PENDING_APPROVAL)] \<and>
   map (\<lambda>it. (item_id it, userId it, status it))
       (items (step (ClickApprove ''k3x9q2m1z'') (run trace_approve_same_id demo_init)))
     = [(''k3x9q2m1z'', ''a-1717236000000'', UNCLAIMED),
        (''k3x9q2m1z'', ''u-1717232400000'', UNCLAIMED),
        (''1'', ''user-1'', UNCLAIMED), (''2'', ''user-2'', UNCLAIMED),
        (''3'', ''user-3'', PENDING_APPROVAL)]"
proof -
  have a: "rendered (run trace_approve_same_id demo_init) (ClickApprove ''k3x9q2m1z'')"
    by (simp add: trace_approve_same_id_def demo_draft_def session_defs)
  have b: "map (\<lambda>it. (item_id it, userId it, status it))
       (items (run trace_approve_same_id demo_init))
     = [(''k3x9q2m1z'', ''a-1717236000000'', PENDING_APPROVAL),
        (''k3x9q2m1z'', ''u-1717232400000'', RETURNED),
        (''1'', ''user-1'', UNCLAIMED), (''2'', ''user-2'', UNCLAIMED),
        (''3'', ''user-3'', PENDING_APPROVAL)]"
    by (simp add: trace_approve_same_id_def demo_draft_def session_defs)
  have c: "map (\<lambda>it. (item_id it, userId it, status it))
       (items (step (ClickApprove ''k3x9q2m1z'') (run trace_approve_same_id demo_init)))
     = [(''k3x9q2m1z'', ''a-1717236000000'', UNCLAIMED),
        (''k3x9q2m1z'', ''u-1717232400000'', UNCLAIMED),
        (''1'', ''user-1'', UNCLAIMED), (''2'', ''user-2'', UNCLAIMED),
        (''3'', ''user-3'', PENDING_APPROVAL)]"
    by (simp add: trace_approve_same_id_def demo_draft_def session_defs)
  from a b c show ?thesis by blast
qed

text \<open>
  C2, amended. In every state reached from a first visit by events of the page in which
  each new report receives a new id, an Approve button is rendered for an id only when
  the list has an item with that id and every item with that id is \<open>PENDING_APPROVAL\<close>;
  the click sets the status of that item to \<open>UNCLAIMED\<close> and leaves the status of the
  others. In any state, when no listed item with the id is \<open>PENDING_APPROVAL\<close> the button
  is not rendered, so that an approval does not happen and the state is unchanged; in
  particular a second click in a row on the same id changes nothing. There is no error
  result.
\<close>

theorem approve_only_pending_with_new_ids:
  "(fresh_ids evs (initial_state t0 today) \<and>
    rendered (run evs (initial_state t0 today)) (ClickApprove i) \<longrightarrow>
      (\<exists>it \<in> set (items (run evs (initial_state t0 today))). item_id it = i) \<and>
      (\<forall>it \<in> set (items (run evs (initial_state t0 today))).
          item_id it = i \<longrightarrow> status it = PENDING_APPROVAL) \<and>
      map status (items (step (ClickApprove i) (run evs (initial_state t0 today)))) =
        map (\<lambda>it. if item_id it = i then UNCLAIMED else status it)
            (items (run evs (initial_state t0 today)))) \<and>
   ((\<forall>it \<in> set (items st). item_id it = i \<longrightarrow> status it \<noteq> PENDING_APPROVAL) \<longrightarrow>
      step (ClickApprove i) st = st) \<and>
   step (ClickApprove i) (step (ClickApprove i) st) = step (ClickApprove i) st"
proof (intro conjI impI ballI)
  assume a: "fresh_ids evs (initial_state t0 today) \<and>
    rendered (run evs (initial_state t0 today)) (ClickApprove i)"
  let ?S = "run evs (initial_state t0 today)"
  from a claims_inv_initial have "claims_inv ?S" by (simp add: claims_inv_run)
  then have dis: "distinct (map item_id (items ?S))" by (simp add: claims_inv_def)
  from a have ren: "rendered ?S (ClickApprove i)" by simp
  from ren show "\<exists>it \<in> set (items ?S). item_id it = i"
    using rendered_ClickApprove_pending by blast
  from step_rendered [OF ren]
  have e: "step (ClickApprove i) ?S = handleAdminAction i APPROVE ?S" by simp
  show "map status (items (step (ClickApprove i) ?S)) =
        map (\<lambda>it. if item_id it = i then UNCLAIMED else status it) (items ?S)"
    unfolding e by (simp add: approve_items o_def if_distrib cong: if_cong)
  fix it assume "it \<in> set (items ?S)" and "item_id it = i"
  with dis ren show "status it = PENDING_APPROVAL" by (rule approve_distinct_only_pending)
next
  assume "\<forall>it \<in> set (items st). item_id it = i \<longrightarrow> status it \<noteq> PENDING_APPROVAL"
  then have "\<not> rendered st (ClickApprove i)" by (rule not_pending_not_rendered)
  then show "step (ClickApprove i) st = st" by (rule step_not_rendered)
next
  show "step (ClickApprove i) (step (ClickApprove i) st) = step (ClickApprove i) st"
    by (rule step_ClickApprove_twice)
qed

theorem approve_only_pending_with_new_ids_witness:
  "fresh_ids trace_to_approve demo_init \<and>
   rendered (run trace_to_approve demo_init) (ClickApprove ''k3x9q2m1z'') \<and>
   map (\<lambda>it. (item_id it, status it)) (items (run trace_to_approve demo_init))
     = [(''k3x9q2m1z'', PENDING_APPROVAL), (''1'', UNCLAIMED), (''2'', UNCLAIMED),
        (''3'', PENDING_APPROVAL)] \<and>
   map status (items (step (ClickApprove ''k3x9q2m1z'') (run trace_to_approve demo_init)))
     = [UNCLAIMED, UNCLAIMED, UNCLAIMED, PENDING_APPROVAL] \<and>
   step (ClickApprove ''1'') (run trace_to_approve demo_init) = run trace_to_approve demo_init \<and>
   step (ClickApprove ''k3x9q2m1z'')
        (step (ClickApprove ''k3x9q2m1z'') (run trace_to_approve demo_init))
     = step (ClickApprove ''k3x9q2m1z'') (run trace_to_approve demo_init)"
proof -
  let ?S = "run trace_to_approve demo_init"
  have f: "fresh_ids trace_to_approve demo_init"
    by (simp add: trace_to_approve_def trace_lifecycle_def demo_draft_def session_defs)
  have r: "rendered ?S (ClickApprove ''k3x9q2m1z'')"
    by (simp add: trace_to_approve_def trace_lifecycle_def demo_draft_def session_defs)
  have m: "map (\<lambda>it. (item_id it, status it)) (items ?S)
     = [(''k3x9q2m1z'', PENDING_APPROVAL), (''1'', UNCLAIMED), (''2'', UNCLAIMED),
        (''3'', PENDING_APPROVAL)]"
    by (simp add: trace_to_approve_def trace_lifecycle_def demo_draft_def session_defs)
  have m': "map (\<lambda>it. if item_id it = ''k3x9q2m1z'' then UNCLAIMED else status it) (items ?S)
     = [UNCLAIMED, UNCLAIMED, UNCLAIMED, PENDING_APPROVAL]"
    by (simp add: trace_to_approve_def trace_lifecycle_def demo_draft_def session_defs)
  have n: "\<forall>it \<in> set (items ?S). item_id it = ''1'' \<longrightarrow> status it \<noteq> PENDING_APPROVAL"
    by (simp add: trace_to_approve_def trace_lifecycle_def demo_draft_def session_defs)
  note t = approve_only_pending_with_new_ids
    [of trace_to_approve "''2024-06-01T09:00:00.000Z''" "''2024-06-01''" "''k3x9q2m1z''" ?S,
     folded demo_init_def]
  note t1 = approve_only_pending_with_new_ids
    [of trace_to_approve "''2024-06-01T09:00:00.000Z''" "''2024-06-01''" "''1''" ?S,
     folded demo_init_def]
  from t f r have "map status (items (step (ClickApprove ''k3x9q2m1z'') ?S)) =
      map (\<lambda>it. if item_id it = ''k3x9q2m1z'' then UNCLAIMED else status it) (items ?S)"
    by blast
  with m' have a: "map status (items (step (ClickApprove ''k3x9q2m1z'') ?S))
      = [UNCLAIMED, UNCLAIMED, UNCLAIMED, PENDING_APPROVAL]" by simp
  from t1 n have b: "step (ClickApprove ''1'') ?S = ?S" by blast
  from t have c: "step (ClickApprove ''k3x9q2m1z'') (step (ClickApprove ''k3x9q2m1z'') ?S)
     = step (ClickApprove ''k3x9q2m1z'') ?S" by blast
  from f r m a b c show ?thesis by blast
qed

section \<open>Claim submission on the page\<close>

text \<open>
  In the sessions with new ids the second invariant holds: every event keeps it, one case
  for each element of the page.
\<close>

lemma one_claim_inv_iff:
  "one_claim_inv st \<longleftrightarrow>
     distinct (map item_id (items st)) \<and>
     (\<forall>it \<in> set (items st).
        (status it = PENDING_APPROVAL \<or> status it = UNCLAIMED) \<longrightarrow> claims it = []) \<and>
     (\<forall>it \<in> set (items st). length (claims it) \<le> 1) \<and>
     (\<forall>sel. selectedItem st = Some sel \<longrightarrow> status sel = UNCLAIMED \<longrightarrow>
        (\<forall>it \<in> set (items st). item_id it = item_id sel \<longrightarrow> claims it = []))"
  unfolding one_claim_inv_def list_all_iff by (cases "selectedItem st") simp_all

lemma one_claim_invI:
  assumes "distinct (map item_id (items st))"
    and "\<And>it. it \<in> set (items st) \<Longrightarrow>
           status it = PENDING_APPROVAL \<or> status it = UNCLAIMED \<Longrightarrow> claims it = []"
    and "\<And>it. it \<in> set (items st) \<Longrightarrow> length (claims it) \<le> 1"
    and "\<And>sel it. selectedItem st = Some sel \<Longrightarrow> status sel = UNCLAIMED \<Longrightarrow>
           it \<in> set (items st) \<Longrightarrow> item_id it = item_id sel \<Longrightarrow> claims it = []"
  shows "one_claim_inv st"
  unfolding one_claim_inv_iff using assms by blast

lemma one_claim_inv_distinct:
  "one_claim_inv st \<Longrightarrow> distinct (map item_id (items st))"
  unfolding one_claim_inv_iff by blast

lemma one_claim_inv_open:
  "one_claim_inv st \<Longrightarrow> it \<in> set (items st) \<Longrightarrow>
   status it = PENDING_APPROVAL \<or> status it = UNCLAIMED \<Longrightarrow> claims it = []"
  unfolding one_claim_inv_iff by blast

lemma one_claim_inv_le:
  "one_claim_inv st \<Longrightarrow> it \<in> set (items st) \<Longrightarrow> length (claims it) \<le> 1"
  unfolding one_claim_inv_iff by blast

lemma one_claim_inv_sel:
  "one_claim_inv st \<Longrightarrow> selectedItem st = Some sel \<Longrightarrow> status sel = UNCLAIMED \<Longrightarrow>
   it \<in> set (items st) \<Longrightarrow> item_id it = item_id sel \<Longrightarrow> claims it = []"
  unfolding one_claim_inv_iff by blast

lemma one_claim_inv_same_items:
  assumes inv: "one_claim_inv st" and its: "items st' = items st"
    and sel: "selectedItem st' = selectedItem st"
  shows "one_claim_inv st'"
  using inv unfolding one_claim_inv_iff its sel .

lemma one_claim_inv_deselect:
  assumes inv: "one_claim_inv st" and its: "items st' = items st"
    and sel: "selectedItem st' = None"
  shows "one_claim_inv st'"
proof (rule one_claim_invI)
  show "distinct (map item_id (items st'))"
    unfolding its using inv by (rule one_claim_inv_distinct)
next
  fix it assume "it \<in> set (items st')"
    and "status it = PENDING_APPROVAL \<or> status it = UNCLAIMED"
  then show "claims it = []" unfolding its using inv by (simp only: one_claim_inv_open)
next
  fix it assume "it \<in> set (items st')"
  then show "length (claims it) \<le> 1" unfolding its using inv by (simp only: one_claim_inv_le)
next
  fix sel' it assume "selectedItem st' = Some sel'"
  with sel show "claims it = []" by simp
qed

lemma one_claim_inv_status_map:
  assumes inv: "one_claim_inv st"
    and ok: "\<And>it. it \<in> set (items st) \<Longrightarrow> item_id it = i \<Longrightarrow>
               s = PENDING_APPROVAL \<or> s = UNCLAIMED \<Longrightarrow> claims it = []"
    and its: "items st' = map (\<lambda>it. if item_id it = i then it\<lparr>status := s\<rparr> else it) (items st)"
    and sel: "selectedItem st' = selectedItem st"
  shows "one_claim_inv st'"
proof (rule one_claim_invI)
  have "map item_id (items st') = map item_id (items st)"
    by (simp add: its o_def if_distrib cong: if_cong)
  with inv show "distinct (map item_id (items st'))" by (simp only: one_claim_inv_distinct)
next
  fix it assume a: "it \<in> set (items st')"
    and b: "status it = PENDING_APPROVAL \<or> status it = UNCLAIMED"
  from a obtain x where x: "x \<in> set (items st)"
    and e: "it = (if item_id x = i then x\<lparr>status := s\<rparr> else x)"
    unfolding its by (auto elim: imageE)
  show "claims it = []"
  proof (cases "item_id x = i")
    case True
    with e b have "s = PENDING_APPROVAL \<or> s = UNCLAIMED" by simp
    with x True have "claims x = []" by (rule ok)
    with e True show ?thesis by simp
  next
    case False
    with e have "it = x" by simp
    with inv x b show ?thesis by (simp only: one_claim_inv_open)
  qed
next
  fix it assume a: "it \<in> set (items st')"
  from a obtain x where x: "x \<in> set (items st)"
    and e: "it = (if item_id x = i then x\<lparr>status := s\<rparr> else x)"
    unfolding its by (auto elim: imageE)
  from e have "claims it = claims x" by (cases "item_id x = i") simp_all
  with inv x show "length (claims it) \<le> 1" by (simp only: one_claim_inv_le)
next
  fix sel' it assume s1: "selectedItem st' = Some sel'" and s2: "status sel' = UNCLAIMED"
    and a: "it \<in> set (items st')" and b: "item_id it = item_id sel'"
  from a obtain x where x: "x \<in> set (items st)"
    and e: "it = (if item_id x = i then x\<lparr>status := s\<rparr> else x)"
    unfolding its by (auto elim: imageE)
  from e have c: "claims it = claims x" and d: "item_id it = item_id x"
    by (cases "item_id x = i", simp_all)+
  from s1 sel have "selectedItem st = Some sel'" by simp
  from inv this s2 x have "claims x = []" using b d by (simp only: one_claim_inv_sel)
  with c show "claims it = []" by simp
qed

lemma one_claim_inv_filter:
  assumes inv: "one_claim_inv st"
    and its: "items st' = filter P (items st)"
    and sel: "selectedItem st' = selectedItem st"
  shows "one_claim_inv st'"
proof (rule one_claim_invI)
  from inv have "distinct (map item_id (items st))" by (rule one_claim_inv_distinct)
  then show "distinct (map item_id (items st'))" unfolding its by (rule distinct_map_filter)
next
  fix it assume "it \<in> set (items st')"
    and b: "status it = PENDING_APPROVAL \<or> status it = UNCLAIMED"
  then have "it \<in> set (items st)" by (simp add: its)
  with inv b show "claims it = []" by (simp only: one_claim_inv_open)
next
  fix it assume "it \<in> set (items st')"
  then have "it \<in> set (items st)" by (simp add: its)
  with inv show "length (claims it) \<le> 1" by (simp only: one_claim_inv_le)
next
  fix sel' it assume s1: "selectedItem st' = Some sel'" and s2: "status sel' = UNCLAIMED"
    and a: "it \<in> set (items st')" and b: "item_id it = item_id sel'"
  from a have x: "it \<in> set (items st)" by (simp add: its)
  from s1 sel have "selectedItem st = Some sel'" by simp
  from inv this s2 x b show "claims it = []" by (rule one_claim_inv_sel)
qed

lemma one_claim_inv_handlePost:
  assumes inv: "one_claim_inv st" and fresh: "fresh_id st (SubmitPost rid now now2)"
  shows "one_claim_inv (handlePost rid now now2 st)"
proof (cases "currentUser st")
  case None
  with inv show ?thesis by (simp add: handlePost_def)
next
  case (Some u)
  let ?n = "new_item (newItem st) rid (u_id u) now"
  have its: "items (handlePost rid now now2 st) = ?n # items st"
    and sel: "selectedItem (handlePost rid now now2 st) = selectedItem st"
    by (simp_all add: handlePost_def Some)
  have n: "item_id ?n = rid" "claims ?n = []" by (simp_all add: new_item_def)
  show ?thesis
  proof (rule one_claim_invI)
    from inv have "distinct (map item_id (items st))" by (rule one_claim_inv_distinct)
    moreover from fresh have "rid \<notin> item_id ` set (items st)" by simp
    ultimately show "distinct (map item_id (items (handlePost rid now now2 st)))"
      unfolding its by (simp add: n)
  next
    fix it assume a: "it \<in> set (items (handlePost rid now now2 st))"
      and b: "status it = PENDING_APPROVAL \<or> status it = UNCLAIMED"
    from a have "it = ?n \<or> it \<in> set (items st)" by (simp add: its)
    then show "claims it = []"
    proof
      assume "it = ?n" then show ?thesis by (simp only: n)
    next
      assume "it \<in> set (items st)"
      with inv b show ?thesis by (simp only: one_claim_inv_open)
    qed
  next
    fix it assume a: "it \<in> set (items (handlePost rid now now2 st))"
    from a have "it = ?n \<or> it \<in> set (items st)" by (simp add: its)
    then show "length (claims it) \<le> 1"
    proof
      assume "it = ?n" then show ?thesis by (simp add: n)
    next
      assume "it \<in> set (items st)"
      with inv show ?thesis by (simp only: one_claim_inv_le)
    qed
  next
    fix sel' it assume s1: "selectedItem (handlePost rid now now2 st) = Some sel'"
      and s2: "status sel' = UNCLAIMED"
      and a: "it \<in> set (items (handlePost rid now now2 st))" and b: "item_id it = item_id sel'"
    from a have "it = ?n \<or> it \<in> set (items st)" by (simp add: its)
    then show "claims it = []"
    proof
      assume "it = ?n" then show ?thesis by (simp only: n)
    next
      assume x: "it \<in> set (items st)"
      from s1 sel have "selectedItem st = Some sel'" by simp
      from inv this s2 x b show ?thesis by (rule one_claim_inv_sel)
    qed
  qed
qed

lemma one_claim_inv_select:
  assumes inv: "one_claim_inv st" and it: "it \<in> set (items st)"
  shows "one_claim_inv (setSelectedItem it st)"
proof (rule one_claim_invI)
  have its: "items (setSelectedItem it st) = items st" by (simp add: setSelectedItem_def)
  have sel: "selectedItem (setSelectedItem it st) = Some it" by (simp add: setSelectedItem_def)
  {
    show "distinct (map item_id (items (setSelectedItem it st)))"
      unfolding its using inv by (rule one_claim_inv_distinct)
  next
    fix x assume "x \<in> set (items (setSelectedItem it st))"
      and "status x = PENDING_APPROVAL \<or> status x = UNCLAIMED"
    then show "claims x = []" unfolding its using inv by (simp only: one_claim_inv_open)
  next
    fix x assume "x \<in> set (items (setSelectedItem it st))"
    then show "length (claims x) \<le> 1" unfolding its using inv by (simp only: one_claim_inv_le)
  next
    fix sel' x assume s1: "selectedItem (setSelectedItem it st) = Some sel'"
      and s2: "status sel' = UNCLAIMED"
      and a: "x \<in> set (items (setSelectedItem it st))" and b: "item_id x = item_id sel'"
    from s1 sel have e: "sel' = it" by simp
    from a have x: "x \<in> set (items st)" by (simp only: its)
    from inv have "distinct (map item_id (items st))" by (rule one_claim_inv_distinct)
    then have "inj_on item_id (set (items st))" by (simp add: distinct_map)
    with x it b e have "x = it" by (auto dest: inj_onD)
    with inv it s2 e show "claims x = []" by (simp add: one_claim_inv_open)
  }
qed

lemma one_claim_inv_handleClaimSubmit:
  assumes inv: "one_claim_inv st" and vis: "claimFormVisible st"
  shows "one_claim_inv (handleClaimSubmit rid st)"
proof -
  from vis obtain sel u where sel: "selectedItem st = Some sel" and usr: "currentUser st = Some u"
    and un: "status sel = UNCLAIMED"
    by (auto simp: claimFormVisible_def split: option.splits)
  let ?c = "new_claim rid u (claimForm st)"
  let ?f = "\<lambda>it. if item_id it = item_id sel
               then it\<lparr>status := CLAIM_REQUESTED, claims := claims it @ [?c]\<rparr>
               else it"
  have its: "items (handleClaimSubmit rid st) = map ?f (items st)"
    using sel usr by (rule handleClaimSubmit_items)
  have none: "selectedItem (handleClaimSubmit rid st) = None"
    using sel usr by (rule handleClaimSubmit_selected)
  show ?thesis
  proof (rule one_claim_invI)
    have "map item_id (items (handleClaimSubmit rid st)) = map item_id (items st)"
      by (simp add: its o_def if_distrib cong: if_cong)
    with inv show "distinct (map item_id (items (handleClaimSubmit rid st)))"
      by (simp only: one_claim_inv_distinct)
  next
    fix it assume a: "it \<in> set (items (handleClaimSubmit rid st))"
      and b: "status it = PENDING_APPROVAL \<or> status it = UNCLAIMED"
    from a obtain x where x: "x \<in> set (items st)" and e: "it = ?f x"
      unfolding its by (auto elim: imageE)
    show "claims it = []"
    proof (cases "item_id x = item_id sel")
      case True
      with e b show ?thesis by simp
    next
      case False
      with e have "it = x" by simp
      with inv x b show ?thesis by (simp only: one_claim_inv_open)
    qed
  next
    fix it assume a: "it \<in> set (items (handleClaimSubmit rid st))"
    from a obtain x where x: "x \<in> set (items st)" and e: "it = ?f x"
      unfolding its by (auto elim: imageE)
    show "length (claims it) \<le> 1"
    proof (cases "item_id x = item_id sel")
      case True
      from inv sel un x True have "claims x = []" by (rule one_claim_inv_sel)
      with e True show ?thesis by simp
    next
      case False
      with e have "it = x" by simp
      with inv x show ?thesis by (simp only: one_claim_inv_le)
    qed
  next
    fix sel' it assume "selectedItem (handleClaimSubmit rid st) = Some sel'"
    with none show "claims it = []" by simp
  qed
qed

lemma one_claim_inv_effect:
  assumes inv: "one_claim_inv st" and ren: "rendered st ev" and fresh: "fresh_id st ev"
  shows "one_claim_inv (effect ev st)"
proof (cases ev)
  case (ClickEnterCampus e ms)
  show ?thesis unfolding ClickEnterCampus
    by (rule one_claim_inv_same_items [OF inv]) (simp_all add: login_def)
next
  case (ClickAdminPortal e ms)
  show ?thesis unfolding ClickAdminPortal
    by (rule one_claim_inv_same_items [OF inv]) (simp_all add: login_def)
next
  case ClickLogout
  show ?thesis unfolding ClickLogout
    by (rule one_claim_inv_same_items [OF inv]) (simp_all add: logout_def)
next
  case (ClickTab t)
  show ?thesis unfolding ClickTab
    by (rule one_claim_inv_same_items [OF inv]) simp_all
next
  case (TypeSearch q)
  show ?thesis unfolding TypeSearch
    by (rule one_claim_inv_same_items [OF inv]) simp_all
next
  case (ClickCategory c)
  show ?thesis unfolding ClickCategory
    by (rule one_claim_inv_same_items [OF inv]) simp_all
next
  case (ChangeDraft d)
  show ?thesis unfolding ChangeDraft
    by (rule one_claim_inv_same_items [OF inv]) (simp_all add: setNewItem_def)
next
  case (SubmitPost rid now now2)
  with inv fresh show ?thesis by (simp add: one_claim_inv_handlePost)
next
  case (ClickItem it)
  with ren have "it \<in> set (items st)" by (simp add: rendered_ClickItem_listed)
  with inv ClickItem show ?thesis by (simp add: one_claim_inv_select)
next
  case CloseSheet
  show ?thesis unfolding CloseSheet
    by (rule one_claim_inv_deselect [OF inv]) simp_all
next
  case (ChangeClaimForm f)
  show ?thesis unfolding ChangeClaimForm
    by (rule one_claim_inv_same_items [OF inv]) (simp_all add: setClaimForm_def)
next
  case (SubmitClaimForm rid)
  with inv ren show ?thesis by (simp add: one_claim_inv_handleClaimSubmit)
next
  case (ClickApprove i)
  from inv have dis: "distinct (map item_id (items st))" by (rule one_claim_inv_distinct)
  from ren ClickApprove have r: "rendered st (ClickApprove i)" by simp
  have ok: "claims it = []" if "it \<in> set (items st)" and "item_id it = i" for it
  proof -
    from dis r that have "status it = PENDING_APPROVAL" by (rule approve_distinct_only_pending)
    with inv that show ?thesis by (simp add: one_claim_inv_open)
  qed
  show ?thesis unfolding ClickApprove effect.simps
    by (rule one_claim_inv_status_map [OF inv, of i UNCLAIMED])
       (simp_all add: handleAdminAction_def ok)
next
  case (ClickReject i)
  show ?thesis unfolding ClickReject effect.simps
    by (rule one_claim_inv_filter [OF inv]) (simp_all add: handleAdminAction_def)
next
  case ClickMarkResolved
  show ?thesis
  proof (cases "selectedItem st")
    case None
    with inv ClickMarkResolved show ?thesis by simp
  next
    case (Some sel)
    have "one_claim_inv (handleAdminAction (item_id sel) MARK_RETURNED st)"
      by (rule one_claim_inv_status_map [OF inv, of "item_id sel" RETURNED])
         (simp_all add: handleAdminAction_def)
    with Some ClickMarkResolved show ?thesis by simp
  qed
next
  case ClickDeletePermanently
  show ?thesis
  proof (cases "selectedItem st")
    case None
    with inv ClickDeletePermanently show ?thesis by simp
  next
    case (Some sel)
    have "one_claim_inv (handleAdminAction (item_id sel) DELETE st)"
      by (rule one_claim_inv_filter [OF inv]) (simp_all add: handleAdminAction_def)
    with Some ClickDeletePermanently show ?thesis by simp
  qed
next
  case (Reload today)
  show ?thesis unfolding Reload
    by (rule one_claim_inv_deselect [OF inv]) (simp_all add: initial_state_def)
qed

lemma one_claim_inv_run:
  assumes "one_claim_inv st" and "fresh_ids evs st"
  shows "one_claim_inv (run evs st)"
  using assms
proof (induction evs arbitrary: st)
  case Nil
  then show ?case by simp
next
  case (Cons ev evs)
  have "one_claim_inv (step ev st)"
  proof (cases "rendered st ev")
    case True
    with Cons.prems show ?thesis by (simp add: step_def one_claim_inv_effect)
  next
    case False
    with Cons.prems show ?thesis by (simp add: step_def)
  qed
  moreover from Cons.prems have "fresh_ids evs (step ev st)" by simp
  ultimately have "one_claim_inv (run evs (step ev st))" by (rule Cons.IH)
  then show ?case by simp
qed

lemma one_claim_inv_initial: "one_claim_inv (initial_state t0 today)"
  by (simp add: one_claim_inv_def initial_state_def INITIAL_ITEMS_def)

lemma at_most_one_claim_with_new_ids:
  assumes "fresh_ids evs (initial_state t0 today)"
  shows "list_all (\<lambda>it. length (claims it) \<le> 1) (items (run evs (initial_state t0 today)))"
proof -
  from one_claim_inv_initial assms have "one_claim_inv (run evs (initial_state t0 today))"
    by (rule one_claim_inv_run)
  then show ?thesis by (simp add: one_claim_inv_def)
qed

lemma step_SubmitClaimForm_twice:
  "step (SubmitClaimForm rid') (step (SubmitClaimForm rid) st) = step (SubmitClaimForm rid) st"
proof (cases "rendered st (SubmitClaimForm rid)")
  case True
  then obtain sel u where "selectedItem st = Some sel" and "currentUser st = Some u"
    by (auto simp: claimFormVisible_def split: option.splits)
  then have "selectedItem (handleClaimSubmit rid st) = None"
    by (rule handleClaimSubmit_selected)
  then have "\<not> claimFormVisible (handleClaimSubmit rid st)"
    by (simp add: claimFormVisible_def split: option.splits)
  then have nr: "\<not> rendered (handleClaimSubmit rid st) (SubmitClaimForm rid')"
    by simp
  from step_rendered [OF True]
  have e: "step (SubmitClaimForm rid) st = handleClaimSubmit rid st" by simp
  show ?thesis unfolding e using nr by (rule step_not_rendered)
next
  case False
  then have nr: "\<not> rendered st (SubmitClaimForm rid')" by simp
  from step_not_rendered [OF False]
  have e: "step (SubmitClaimForm rid) st = st" .
  show ?thesis unfolding e using nr by (rule step_not_rendered)
qed

text \<open>
  C3. The page does not keep claims to \<open>UNCLAIMED\<close> items. \<open>handleClaimSubmit\<close> does not
  look at the status of the item it changes; the status is checked by the render condition
  of the claim form, on the copy of the item that the sheet took when it was opened.
  \<open>handleAdminAction\<close> changes the list and leaves that copy as it is, whereas
  \<open>handleClaimSubmit\<close> clears it. In the session \<open>trace_returned\<close>, where each event is on a
  rendered element and no id is drawn twice, the moderator opens item 1, which is
  \<open>UNCLAIMED\<close>, and presses \<^emph>\<open>Mark as Resolved\<close>: the item is \<open>RETURNED\<close>, the copy is
  still \<open>UNCLAIMED\<close>, the claim form is still rendered, and submitting it moves item 1 from
  \<open>RETURNED\<close> to \<open>CLAIM_REQUESTED\<close> and appends a claim.
\<close>

theorem claim_on_returned_item_through_stale_sheet:
  "fresh_ids trace_returned demo_init \<and>
   run trace_returned demo_init = demo_returned \<and>
   rendered demo_returned (SubmitClaimForm ''c7f2k1q0x'') \<and>
   map_option status (selectedItem demo_returned) = Some UNCLAIMED \<and>
   map status (items demo_returned) = [RETURNED, UNCLAIMED, PENDING_APPROVAL] \<and>
   map (length \<circ> claims) (items demo_returned) = [0, 0, 0] \<and>
   map status (items (step (SubmitClaimForm ''c7f2k1q0x'') demo_returned))
     = [CLAIM_REQUESTED, UNCLAIMED, PENDING_APPROVAL] \<and>
   map (length \<circ> claims) (items (step (SubmitClaimForm ''c7f2k1q0x'') demo_returned))
     = [1, 0, 0]"
proof -
  have f: "fresh_ids trace_returned demo_init"
    by (simp add: trace_returned_def)
  have r: "run trace_returned demo_init = demo_returned"
    by (simp add: trace_returned_def demo_returned_def demo_admin_def session_defs)
  have v: "rendered demo_returned (SubmitClaimForm ''c7f2k1q0x'')"
    by (simp add: demo_returned_def demo_admin_def demo_init_def initial_state_def
        INITIAL_ITEMS_def login_def handleAdminAction_def setSelectedItem_def setClaimForm_def
        claimFormVisible_def demo_form_def)
  from step_rendered [OF v]
  have e: "step (SubmitClaimForm ''c7f2k1q0x'') demo_returned
             = handleClaimSubmit ''c7f2k1q0x'' demo_returned" by simp
  have rest: "map_option status (selectedItem demo_returned) = Some UNCLAIMED \<and>
   map status (items demo_returned) = [RETURNED, UNCLAIMED, PENDING_APPROVAL] \<and>
   map (length \<circ> claims) (items demo_returned) = [0, 0, 0] \<and>
   map status (items (handleClaimSubmit ''c7f2k1q0x'' demo_returned))
     = [CLAIM_REQUESTED, UNCLAIMED, PENDING_APPROVAL] \<and>
   map (length \<circ> claims) (items (handleClaimSubmit ''c7f2k1q0x'' demo_returned)) = [1, 0, 0]"
    by (simp add: demo_returned_def demo_admin_def demo_init_def initial_state_def
        INITIAL_ITEMS_def login_def handleAdminAction_def setSelectedItem_def setClaimForm_def
        claimFormVisible_def handleClaimSubmit_def demo_form_def)
  from f r v rest show ?thesis unfolding e by blast
qed

section \<open>Length of the claim message\<close>

text \<open>
  C5. The schema design asks for a claim message of at least twenty characters. The
  submission path does not check the length: in the session \<open>demo_short\<close>, reached by the
  events of \<open>trace_short\<close>, the claim form is rendered for item 2 and the message is the
  four letters \<^verbatim>\<open>mine\<close>; submitting the form appends the claim and moves the item to
  \<open>CLAIM_REQUESTED\<close>.
\<close>

theorem short_claim_message_accepted:
  "run trace_short demo_init = demo_short \<and>
   rendered demo_short (SubmitClaimForm ''c7f2k1q0x'') \<and>
   f_message (claimForm demo_short) = ''mine'' \<and>
   length (f_message (claimForm demo_short)) < ClaimSchema_message_minlength \<and>
   map (\<lambda>it. (status it, map message (claims it))) (items demo_short)
     = [(UNCLAIMED, []), (UNCLAIMED, []), (PENDING_APPROVAL, [])] \<and>
   map (\<lambda>it. (status it, map message (claims it)))
       (items (step (SubmitClaimForm ''c7f2k1q0x'') demo_short))
     = [(UNCLAIMED, []), (CLAIM_REQUESTED, [''mine'']), (PENDING_APPROVAL, [])]"
proof -
  have r: "run trace_short demo_init = demo_short"
    by (simp add: trace_short_def demo_short_def demo_student_def session_defs)
  have rest: "rendered demo_short (SubmitClaimForm ''c7f2k1q0x'') \<and>
   f_message (claimForm demo_short) = ''mine'' \<and>
   length (f_message (claimForm demo_short)) < ClaimSchema_message_minlength \<and>
   map (\<lambda>it. (status it, map message (claims it))) (items demo_short)
     = [(UNCLAIMED, []), (UNCLAIMED, []), (PENDING_APPROVAL, [])] \<and>
   map (\<lambda>it. (status it, map message (claims it)))
       (items (step (SubmitClaimForm ''c7f2k1q0x'') demo_short))
     = [(UNCLAIMED, []), (CLAIM_REQUESTED, [''mine'']), (PENDING_APPROVAL, [])]"
    by (simp add: demo_short_def demo_student_def demo_init_def initial_state_def
        INITIAL_ITEMS_def login_def setSelectedItem_def setClaimForm_def claimFormVisible_def
        handleClaimSubmit_def new_claim_def ClaimSchema_message_minlength_def step_def)
  from r rest show ?thesis by (rule conjI)
qed

section \<open>Deletion\<close>

lemma delete_items:
  "items (handleAdminAction i DELETE st) = filter (\<lambda>it. item_id it \<noteq> i) (items st)"
  by (simp add: handleAdminAction_def)

text \<open>
  C6. From any status, \<open>handleAdminAction\<close> with \<open>DELETE\<close> keeps exactly the items whose id
  differs from the given one. No item of the resulting list has the id: a search by id
  finds nothing in the list nor in the three lists derived from it, and the claims left in
  the list are those of the kept items.
\<close>

theorem delete_removes_item_and_claims:
  "items (handleAdminAction i DELETE st) = filter (\<lambda>it. item_id it \<noteq> i) (items st) \<and>
   find (\<lambda>it. item_id it = i) (items (handleAdminAction i DELETE st)) = None \<and>
   i \<notin> item_id ` set (items (handleAdminAction i DELETE st)) \<and>
   i \<notin> item_id ` set (filteredItems (handleAdminAction i DELETE st)) \<and>
   i \<notin> item_id ` set (myItems (handleAdminAction i DELETE st)) \<and>
   i \<notin> item_id ` set (myClaims (handleAdminAction i DELETE st)) \<and>
   concat (map claims (items (handleAdminAction i DELETE st))) =
     concat (map claims (filter (\<lambda>it. item_id it \<noteq> i) (items st)))"
proof -
  have its: "items (handleAdminAction i DELETE st) = filter (\<lambda>it. item_id it \<noteq> i) (items st)"
    by (rule delete_items)
  have absent: "i \<notin> item_id ` set (items (handleAdminAction i DELETE st))"
    by (auto simp: its)
  have "find (\<lambda>it. item_id it = i) (items (handleAdminAction i DELETE st)) = None"
    by (simp add: its find_None_iff)
  moreover have "i \<notin> item_id ` set (filteredItems (handleAdminAction i DELETE st))"
    using absent by (auto simp: filteredItems_def)
  moreover have "i \<notin> item_id ` set (myItems (handleAdminAction i DELETE st))"
    using absent by (auto simp: myItems_def)
  moreover have "i \<notin> item_id ` set (myClaims (handleAdminAction i DELETE st))"
    using absent by (auto simp: myClaims_def)
  ultimately show ?thesis using its absent by simp
qed

theorem delete_removes_item_and_claims_witness:
  "map (\<lambda>it. (item_id it, status it, length (claims it))) (items demo_claimed)
     = [(''1'', UNCLAIMED, 0), (''2'', CLAIM_REQUESTED, 1), (''3'', PENDING_APPROVAL, 0)] \<and>
   map item_id (items (handleAdminAction ''2'' DELETE demo_claimed)) = [''1'', ''3''] \<and>
   find (\<lambda>it. item_id it = ''2'') (items (handleAdminAction ''2'' DELETE demo_claimed)) = None \<and>
   concat (map claims (items (handleAdminAction ''2'' DELETE demo_claimed))) = []"
proof -
  have its: "items demo_claimed =
      map (\<lambda>it. if item_id it = ''2''
                then it\<lparr>status := CLAIM_REQUESTED,
                        claims := claims it @ [new_claim ''c7f2k1q0x''
                           \<lparr>u_id = ''u-1717232400000'', email = ''amy@uni.edu'', role = STUDENT\<rparr>
                           demo_form]\<rparr>
                else it) (INITIAL_ITEMS ''2024-06-01T09:00:00.000Z'')"
    by (simp add: demo_claimed_def handleClaimSubmit_def demo_claiming_facts INITIAL_ITEMS_def)
  have before: "map (\<lambda>it. (item_id it, status it, length (claims it))) (items demo_claimed)
     = [(''1'', UNCLAIMED, 0), (''2'', CLAIM_REQUESTED, 1), (''3'', PENDING_APPROVAL, 0)]"
    by (simp add: its INITIAL_ITEMS_def)
  note d = delete_removes_item_and_claims [of "''2''" demo_claimed]
  from d have f: "find (\<lambda>it. item_id it = ''2'') (items (handleAdminAction ''2'' DELETE demo_claimed)) = None"
    by blast
  from d have e: "items (handleAdminAction ''2'' DELETE demo_claimed)
      = filter (\<lambda>it. item_id it \<noteq> ''2'') (items demo_claimed)" by blast
  have ids: "map item_id (items (handleAdminAction ''2'' DELETE demo_claimed)) = [''1'', ''3'']"
    unfolding e by (simp add: its INITIAL_ITEMS_def)
  have cl: "concat (map claims (items (handleAdminAction ''2'' DELETE demo_claimed))) = []"
    unfolding e by (simp add: its INITIAL_ITEMS_def)
  from before ids f cl show ?thesis by blast
qed

section \<open>Creation of a report\<close>

text \<open>
  With a user logged in, \<open>handlePost\<close> puts one new item in front of the list. Its
  status is \<open>PENDING_APPROVAL\<close>, its owner is the logged-in user, it has no claims, and its
  other fields are those of the draft, the random id and the time stamp.
\<close>

theorem handlePost_creates_pending_item:
  assumes "currentUser st = Some u"
  shows "\<exists>it. items (handlePost rid now now2 st) = it # items st \<and>
              status it = PENDING_APPROVAL \<and> userId it = u_id u \<and> claims it = [] \<and>
              item_id it = rid \<and> createdAt it = now \<and>
              title it = n_title (newItem st) \<and> item_type it = n_type (newItem st) \<and>
              category it = n_category (newItem st) \<and> location it = n_location (newItem st) \<and>
              date it = n_date (newItem st) \<and> description it = n_description (newItem st) \<and>
              imageUrl it = n_imageUrl (newItem st)"
  using assms by (simp add: handlePost_def new_item_def)

theorem handlePost_creates_pending_item_witness:
  "currentUser (setNewItem demo_draft demo_student) =
     Some \<lparr>u_id = ''u-1717232400000'', email = ''amy@uni.edu'', role = STUDENT\<rparr> \<and>
   (\<exists>it. items demo_posted = it # items (setNewItem demo_draft demo_student) \<and>
         status it = PENDING_APPROVAL \<and> userId it = ''u-1717232400000'' \<and> claims it = [] \<and>
         title it = ''MacBook Air'' \<and> category it = ELECTRONICS)"
proof -
  have u: "currentUser (setNewItem demo_draft demo_student) =
     Some \<lparr>u_id = ''u-1717232400000'', email = ''amy@uni.edu'', role = STUDENT\<rparr>"
    by (simp add: setNewItem_def demo_student_def demo_init_def initial_state_def login_def)
  have d: "newItem (setNewItem demo_draft demo_student) = demo_draft"
    by (simp add: setNewItem_def)
  from handlePost_creates_pending_item [OF u, of "''k3x9q2m1z''" "''2024-06-01T09:05:00.000Z''"
      "''2024-06-01T09:05:00.001Z''"]
  obtain it where "items demo_posted = it # items (setNewItem demo_draft demo_student)"
    and "status it = PENDING_APPROVAL" and "userId it = ''u-1717232400000''"
    and "claims it = []" and "title it = n_title demo_draft"
    and "category it = n_category demo_draft"
    unfolding demo_posted_def [symmetric] d by auto
  then have "\<exists>it. items demo_posted = it # items (setNewItem demo_draft demo_student) \<and>
         status it = PENDING_APPROVAL \<and> userId it = ''u-1717232400000'' \<and> claims it = [] \<and>
         title it = ''MacBook Air'' \<and> category it = ELECTRONICS"
    by (simp add: demo_draft_def)
  with u show ?thesis by (rule conjI)
qed

text \<open>
  For every draft of the report form the item route answers with a document whose status
  is \<^verbatim>\<open>"Unclaimed"\<close>, when the store takes the document.
\<close>

lemma post_api_items_draft_status:
  "\<exists>doc. post_api_items True oid now (draft_body d) = Resolved doc \<and>
         d_status doc = ''Unclaimed'' \<and> d_id doc = oid \<and> d_createdAt doc = now"
  by (simp add: post_api_items_def Item_create_def draft_body_def)

text \<open>
  C7. Of the two creation operations, \<open>handlePost\<close> makes an item that is
  \<open>PENDING_APPROVAL\<close>, owned by the submitter and without claims (theorem
  \<open>handlePost_creates_pending_item\<close>). The item route of the server does not: for the
  body that \<^verbatim>\<open>createItem\<close> sends for the draft of the report form, the document that
  \<^verbatim>\<open>POST /api/items\<close> answers with has the status \<^verbatim>\<open>"Unclaimed"\<close>, which is not the
  value of \<open>PENDING_APPROVAL\<close>, and the schema gives it no owner and no claims. On the same
  draft \<open>handlePost\<close> makes a \<open>PENDING_APPROVAL\<close> item.
\<close>

theorem post_api_items_creates_unclaimed_item:
  "post_api_items True ''665f1c2e9b1e8a0012345678'' ''2024-06-01T09:05:00.000Z''
     (draft_body demo_draft) =
     Resolved
       \<lparr>d_id = ''665f1c2e9b1e8a0012345678'', d_type = Some ''LOST'',
        d_title = Some ''MacBook Air'', d_category = Some ''Electronics'',
        d_description = Some ''silver, rocket sticker'', d_location = Some ''Lab 3'',
        d_date = Some ''2024-05-15'', d_status = ''Unclaimed'',
        d_createdAt = ''2024-06-01T09:05:00.000Z''\<rparr> \<and>
   ''Unclaimed'' \<noteq> status_name PENDING_APPROVAL \<and>
   ''Unclaimed'' \<notin> set (map status_name
                           [PENDING_APPROVAL, UNCLAIMED, CLAIM_REQUESTED, RETURNED]) \<and>
   map status (items demo_posted)
     = [PENDING_APPROVAL, UNCLAIMED, UNCLAIMED, PENDING_APPROVAL]"
proof -
  have a: "post_api_items True ''665f1c2e9b1e8a0012345678'' ''2024-06-01T09:05:00.000Z''
     (draft_body demo_draft) =
     Resolved
       \<lparr>d_id = ''665f1c2e9b1e8a0012345678'', d_type = Some ''LOST'',
        d_title = Some ''MacBook Air'', d_category = Some ''Electronics'',
        d_description = Some ''silver, rocket sticker'', d_location = Some ''Lab 3'',
        d_date = Some ''2024-05-15'', d_status = ''Unclaimed'',
        d_createdAt = ''2024-06-01T09:05:00.000Z''\<rparr>"
    by (simp add: post_api_items_def Item_create_def draft_body_def demo_draft_def)
  have b: "''Unclaimed'' \<noteq> status_name PENDING_APPROVAL" by simp
  have c: "''Unclaimed'' \<notin> set (map status_name
                           [PENDING_APPROVAL, UNCLAIMED, CLAIM_REQUESTED, RETURNED])"
    by simp
  have d: "map status (items demo_posted)
     = [PENDING_APPROVAL, UNCLAIMED, UNCLAIMED, PENDING_APPROVAL]"
    by (simp add: demo_posted_items new_item_def INITIAL_ITEMS_def)
  from a b c d show ?thesis by blast
qed

section \<open>The text service\<close>

text \<open>
  C8. \<open>enhanceDescription\<close> never ends in a rejected promise, whatever the service does.
  When the call fails (it throws, or the response has no text, or only white space) the
  result is the input text unchanged.
\<close>

theorem enhanceDescription_failure_is_identity:
  "enhanceDescription ai text \<noteq> Rejected \<and>
   (ai_failed (ai \<lparr>model = ''gemini-3-flash-preview'', contents = enhance_contents text\<rparr>) \<longrightarrow>
      enhanceDescription ai text = Resolved text)"
  by (auto simp: enhanceDescription_def ai_failed_def js_or_def
           split: GenResult.splits option.splits)

theorem enhanceDescription_failure_is_identity_witness:
  "ai_failed ((\<lambda>_. Response (Some ''  '')) \<lparr>model = ''gemini-3-flash-preview'',
       contents = enhance_contents ''broken headphones''\<rparr>) \<and>
   enhanceDescription (\<lambda>_. Response (Some ''  '')) ''broken headphones''
     = Resolved ''broken headphones'' \<and>
   enhanceDescription (\<lambda>_. Throws) ''broken headphones'' = Resolved ''broken headphones''"
proof -
  have f1: "ai_failed ((\<lambda>_. Response (Some ''  '')) \<lparr>model = ''gemini-3-flash-preview'',
       contents = enhance_contents ''broken headphones''\<rparr>)"
    by (simp add: ai_failed_def trim_def is_space_def)
  have f2: "ai_failed ((\<lambda>_. Throws) \<lparr>model = ''gemini-3-flash-preview'',
       contents = enhance_contents ''broken headphones''\<rparr>)"
    by (simp add: ai_failed_def)
  from enhanceDescription_failure_is_identity
         [of "\<lambda>_. Response (Some ''  '')" "''broken headphones''"]
       enhanceDescription_failure_is_identity [of "\<lambda>_. Throws" "''broken headphones''"] f1 f2
  show ?thesis by blast
qed

text \<open>
  The fallback of the category suggestion: \<open>suggestCategory\<close> never ends in a rejected
  promise, and when the call fails the result is \<^verbatim>\<open>'Other'\<close>, a member of the enumeration.
\<close>

lemma suggestCategory_failure_is_Other:
  "suggestCategory ai ttl descr \<noteq> Rejected \<and>
   (ai_failed (ai \<lparr>model = ''gemini-3-flash-preview'',
                   contents = categorize_contents ttl descr\<rparr>) \<longrightarrow>
      suggestCategory ai ttl descr = Resolved ''Other'') \<and>
   ''Other'' \<in> set Category_values"
  by (auto simp: suggestCategory_def ai_failed_def js_or_def Category_values_def
           split: GenResult.splits option.splits)

text \<open>Every other answer is passed on as it is, trimmed.\<close>

lemma suggestCategory_passes_answer:
  assumes "ai \<lparr>model = ''gemini-3-flash-preview'',
               contents = categorize_contents ttl descr\<rparr> = Response (Some t)"
    and "trim t \<noteq> []"
  shows "suggestCategory ai ttl descr = Resolved (trim t)"
  using assms by (simp add: suggestCategory_def js_or_def)

text \<open>
  C9. The request asks the service for one of the six category names, and the caller
  stores the result as a \<^verbatim>\<open>Category\<close>, but \<open>suggestCategory\<close> returns the trimmed answer
  without comparing it with the enumeration: when the service answers \<^verbatim>\<open>Jewelry\<close>, the
  result is \<^verbatim>\<open>Jewelry\<close>, which is not a category.
\<close>

theorem suggestCategory_unlisted_answer:
  "suggestCategory (\<lambda>_. Response (Some ''Jewelry'')) ''Gold ring'' ''Found near the gym''
     = Resolved ''Jewelry'' \<and>
   ''Jewelry'' \<notin> set Category_values"
  by (simp add: suggestCategory_def js_or_def trim_def is_space_def Category_values_def)

section \<open>What the moderator actions leave unchanged\<close>

lemma same_except_status_update: "same_except_status (it\<lparr>status := s\<rparr>) it"
  by (simp add: same_except_status_def)

lemma same_except_status_refl: "same_except_status it it"
  by (simp add: same_except_status_def)

lemma handleAdminAction_other_cells:
  "handleAdminAction i a st = st\<lparr>items := items (handleAdminAction i a st)\<rparr>"
  by (cases a) (simp_all add: handleAdminAction_def)

lemma status_action_items:
  assumes "a \<noteq> DELETE"
  shows "\<exists>s. items (handleAdminAction i a st) =
           map (\<lambda>it. if item_id it = i then it\<lparr>status := s\<rparr> else it) (items st)"
proof (cases a)
  case APPROVE
  then show ?thesis by (intro exI [of _ UNCLAIMED]) (simp add: handleAdminAction_def)
next
  case DELETE
  with assms show ?thesis by simp
next
  case MARK_RETURNED
  then show ?thesis by (intro exI [of _ RETURNED]) (simp add: handleAdminAction_def)
qed

lemma handleAdminAction_no_match:
  assumes "\<forall>it \<in> set (items st). item_id it \<noteq> i"
  shows "handleAdminAction i a st = st"
proof -
  have m: "map (\<lambda>it. if item_id it = i then it\<lparr>status := s\<rparr> else it) (items st) = items st"
    for s
    using assms by (simp add: map_idI)
  have f: "filter (\<lambda>it. item_id it \<noteq> i) (items st) = items st"
    using assms by simp
  show ?thesis
    by (cases a) (simp_all add: handleAdminAction_def m f)
qed

text \<open>
  C10. With \<open>APPROVE\<close> or \<open>MARK_RETURNED\<close> the list keeps its length, the item at every
  position keeps every field except \<open>status\<close>, and an item whose id differs from the given
  one is unchanged. With \<open>DELETE\<close> the items whose id differs are kept, unchanged and in
  order. When no item has the given id, each of the three actions returns the state it
  was given. No action touches a state cell other than the item list.
\<close>

theorem handleAdminAction_frame:
  "(a \<noteq> DELETE \<longrightarrow>
      length (items (handleAdminAction i a st)) = length (items st) \<and>
      (\<forall>k < length (items st).
          same_except_status (items (handleAdminAction i a st) ! k) (items st ! k) \<and>
          (item_id (items st ! k) \<noteq> i \<longrightarrow>
             items (handleAdminAction i a st) ! k = items st ! k))) \<and>
   filter (\<lambda>it. item_id it \<noteq> i) (items (handleAdminAction i DELETE st))
     = filter (\<lambda>it. item_id it \<noteq> i) (items st) \<and>
   items (handleAdminAction i DELETE st) = filter (\<lambda>it. item_id it \<noteq> i) (items st) \<and>
   ((\<forall>it \<in> set (items st). item_id it \<noteq> i) \<longrightarrow> handleAdminAction i a st = st) \<and>
   handleAdminAction i a st = st\<lparr>items := items (handleAdminAction i a st)\<rparr>"
proof (intro conjI impI allI)
  assume nd: "a \<noteq> DELETE"
  then obtain s where its: "items (handleAdminAction i a st) =
      map (\<lambda>it. if item_id it = i then it\<lparr>status := s\<rparr> else it) (items st)"
    using status_action_items by blast
  show "length (items (handleAdminAction i a st)) = length (items st)"
    by (simp add: its)
  fix k assume k: "k < length (items st)"
  show "same_except_status (items (handleAdminAction i a st) ! k) (items st ! k)"
    using k by (simp add: its same_except_status_update same_except_status_refl)
  assume "item_id (items st ! k) \<noteq> i"
  then show "items (handleAdminAction i a st) ! k = items st ! k"
    using k by (simp add: its)
next
  show "filter (\<lambda>it. item_id it \<noteq> i) (items (handleAdminAction i DELETE st))
     = filter (\<lambda>it. item_id it \<noteq> i) (items st)"
    by (simp add: handleAdminAction_def)
  show "items (handleAdminAction i DELETE st) = filter (\<lambda>it. item_id it \<noteq> i) (items st)"
    by (simp add: handleAdminAction_def)
  show "handleAdminAction i a st = st\<lparr>items := items (handleAdminAction i a st)\<rparr>"
    by (rule handleAdminAction_other_cells)
next
  assume "\<forall>it \<in> set (items st). item_id it \<noteq> i"
  then show "handleAdminAction i a st = st"
    by (rule handleAdminAction_no_match)
qed

theorem handleAdminAction_frame_witness:
  "MARK_RETURNED \<noteq> DELETE \<and> (1::nat) < length (items demo_admin) \<and>
   item_id (items demo_admin ! 1) = ''2'' \<and>
   same_except_status (items (handleAdminAction ''2'' MARK_RETURNED demo_admin) ! 1)
                      (items demo_admin ! 1) \<and>
   status (items (handleAdminAction ''2'' MARK_RETURNED demo_admin) ! 1) = RETURNED \<and>
   items (handleAdminAction ''2'' MARK_RETURNED demo_admin) ! 0 = items demo_admin ! 0 \<and>
   ''9'' \<notin> item_id ` set (items demo_admin) \<and>
   handleAdminAction ''9'' APPROVE demo_admin = demo_admin \<and>
   handleAdminAction ''9'' DELETE demo_admin = demo_admin"
proof -
  have its: "items demo_admin = INITIAL_ITEMS ''2024-06-01T09:00:00.000Z''"
    by (simp add: demo_admin_def demo_init_def initial_state_def login_def)
  have len: "(1::nat) < length (items demo_admin)" "(0::nat) < length (items demo_admin)"
    by (simp_all add: its INITIAL_ITEMS_def)
  have id1: "item_id (items demo_admin ! 1) = ''2''"
    and id0: "item_id (items demo_admin ! 0) \<noteq> ''2''"
    by (simp_all add: its INITIAL_ITEMS_def)
  have nine: "\<forall>it \<in> set (items demo_admin). item_id it \<noteq> ''9''"
    by (simp add: its INITIAL_ITEMS_def)
  have st1: "status (items (handleAdminAction ''2'' MARK_RETURNED demo_admin) ! 1) = RETURNED"
    by (simp add: its INITIAL_ITEMS_def handleAdminAction_def)
  note f = handleAdminAction_frame [of MARK_RETURNED "''2''" demo_admin]
  note g = handleAdminAction_frame [of APPROVE "''9''" demo_admin]
  note h = handleAdminAction_frame [of DELETE "''9''" demo_admin]
  from f len id1
  have a: "same_except_status (items (handleAdminAction ''2'' MARK_RETURNED demo_admin) ! 1)
                      (items demo_admin ! 1)" by blast
  from f len id0
  have b: "items (handleAdminAction ''2'' MARK_RETURNED demo_admin) ! 0 = items demo_admin ! 0"
    by blast
  from g nine have c: "handleAdminAction ''9'' APPROVE demo_admin = demo_admin" by blast
  from h nine have d: "handleAdminAction ''9'' DELETE demo_admin = demo_admin" by blast
  from nine have nine': "''9'' \<notin> item_id ` set (items demo_admin)" by auto
  from a b c d len id1 nine' st1 show ?thesis by simp
qed

end
